theory Spec2Isabelle
  imports Main "HOL-Library.Multiset" "HOL-Library.Sublist"
begin

section \<open>Python strings\<close>

text \<open>
  A Python \<open>str\<close> is a sequence of Unicode code points; \<open>len\<close> counts code points and
  \<open>word[-1]\<close> is the last code point. A character is therefore a natural number and a string
  a list of them. \<open>py\<close> reads an ASCII literal.
\<close>

type_synonym pychar = nat
type_synonym pystr = "pychar list"

definition py :: "string \<Rightarrow> pystr" where
  "py s = map of_char s"

text \<open>
  \<open>str.isspace\<close> of one character: the code points that \<open>str.split()\<close> and \<open>str.strip()\<close>
  treat as whitespace.
\<close>

definition isspace :: "pychar \<Rightarrow> bool" where
  "isspace c \<longleftrightarrow>
     (9 \<le> c \<and> c \<le> 13) \<or> (28 \<le> c \<and> c \<le> 32) \<or> c = 133 \<or> c = 160 \<or> c = 5760 \<or>
     (8192 \<le> c \<and> c \<le> 8202) \<or> c = 8232 \<or> c = 8233 \<or> c = 8239 \<or> c = 8287 \<or> c = 12288"

text \<open>\<open>string.punctuation\<close>: the 32 ASCII punctuation characters.\<close>

definition is_punctuation :: "pychar \<Rightarrow> bool" where
  "is_punctuation c \<longleftrightarrow>
     (33 \<le> c \<and> c \<le> 47) \<or> (58 \<le> c \<and> c \<le> 64) \<or> (91 \<le> c \<and> c \<le> 96) \<or> (123 \<le> c \<and> c \<le> 126)"

text \<open>\<open>s.strip()\<close>: leading and trailing whitespace removed.\<close>

definition py_strip :: "pystr \<Rightarrow> pystr" where
  "py_strip s = rev (dropWhile isspace (rev (dropWhile isspace s)))"

text \<open>
  \<open>s.split()\<close>: the maximal runs of non-whitespace characters, in order. The first argument
  is the word read so far.
\<close>

fun py_split_from :: "pystr \<Rightarrow> pystr \<Rightarrow> pystr list" where
  "py_split_from w [] = (if w = [] then [] else [w])"
| "py_split_from w (c # cs) =
     (if isspace c then (if w = [] then py_split_from [] cs else w # py_split_from [] cs)
      else py_split_from (w @ [c]) cs)"

definition py_split :: "pystr \<Rightarrow> pystr list" where
  "py_split s = py_split_from [] s"

text \<open>\<open>s.split(sep)\<close> for a one-character separator: empty fields are kept.\<close>

fun py_split_sep_from :: "pychar \<Rightarrow> pystr \<Rightarrow> pystr \<Rightarrow> pystr list" where
  "py_split_sep_from sep w [] = [w]"
| "py_split_sep_from sep w (c # cs) =
     (if c = sep then w # py_split_sep_from sep [] cs else py_split_sep_from sep (w @ [c]) cs)"

definition py_split_sep :: "pychar \<Rightarrow> pystr \<Rightarrow> pystr list" where
  "py_split_sep sep s = py_split_sep_from sep [] s"

text \<open>
  \<open>s.translate(table)\<close> with a table that maps a character to \<open>None\<close> (delete it) or to a
  replacement character.
\<close>

definition translate :: "(pychar \<Rightarrow> pychar option) \<Rightarrow> pystr \<Rightarrow> pystr" where
  "translate table s = List.map_filter table s"

text \<open>
  \<open>str.lower\<close> is Python's full Unicode lowercasing, which is not part of the repository:
  the functions that call it take it as the parameter \<open>lower\<close>. \<open>ascii_lower\<close> agrees with it
  on ASCII text and is used for concrete ASCII inputs.
\<close>

definition ascii_lower :: "pystr \<Rightarrow> pystr" where
  "ascii_lower s = map (\<lambda>c. if 65 \<le> c \<and> c \<le> 90 then c + 32 else c) s"


section \<open>utils.py\<close>

definition FEM_LABEL :: pystr where
  "FEM_LABEL = py ''fem''"

definition MSC_LABEL :: pystr where
  "MSC_LABEL = py ''msc''"

definition OTHER_LABEL :: pystr where
  "OTHER_LABEL = py ''other''"

definition PUNCTUATION_STRIPPER :: "pychar \<Rightarrow> pychar option" where
  "PUNCTUATION_STRIPPER c = (if is_punctuation c then None else Some c)"

definition SUPPORTED_GENDERS :: "pystr set" where
  "SUPPORTED_GENDERS = {FEM_LABEL, MSC_LABEL}"


section \<open>morphological_filtering.py: the filterer and its label tables\<close>

datatype error =
  AttributeError | KeyError | IndexError | NotImplementedError | AssertionError

text \<open>
  A filterer object: the two label dictionaries set up by \<open>__init__\<close> (keyed by the gender
  label, each value a set of raw labels) and the method \<open>_get_gender_per_word\<close> of the
  subclass, which returns a list of raw labels or raises. The raw label type \<open>'l\<close> is
  whatever the analyzer returns; \<open>_matches_gender\<close> only tests labels for membership.
\<close>

record 'l morph_filterer =
  MATCH_GENDER_LABELS :: "pystr \<rightharpoonup> 'l set"
  OTHER_GENDER_LABELS :: "pystr \<rightharpoonup> 'l set"
  get_gender_per_word :: "pystr \<Rightarrow> error + 'l list"

text \<open>\<open>MorphFilterer.__init__\<close> and the abstract \<open>_get_gender_per_word\<close>.\<close>

definition MorphFilterer :: "pystr morph_filterer" where
  "MorphFilterer =
     \<lparr> MATCH_GENDER_LABELS = [FEM_LABEL \<mapsto> {FEM_LABEL}, MSC_LABEL \<mapsto> {MSC_LABEL}],
       OTHER_GENDER_LABELS = [FEM_LABEL \<mapsto> {MSC_LABEL}, MSC_LABEL \<mapsto> {FEM_LABEL}],
       get_gender_per_word = (\<lambda>sentence. Inl NotImplementedError) \<rparr>"

text \<open>
  \<open>d[key].update(labels)\<close> on a dictionary of sets; a missing key raises \<open>KeyError\<close>.
\<close>

definition dict_update :: "('k \<rightharpoonup> 'l set) \<Rightarrow> 'k \<Rightarrow> 'l set \<Rightarrow> error + ('k \<rightharpoonup> 'l set)" where
  "dict_update d key labels =
     (case d key of None \<Rightarrow> Inl KeyError | Some old \<Rightarrow> Inr (d(key \<mapsto> old \<union> labels)))"

text \<open>
  The four label updates shared by \<open>RussianMorphFilterer.__init__\<close> (\<open>femn\<close>, \<open>masc\<close>) and
  \<open>SpacyMorphFilterer.__init__\<close> (\<open>Fem\<close>, \<open>Masc\<close>), applied in the source's order.
\<close>

definition register_labels ::
  "pystr \<Rightarrow> pystr \<Rightarrow> pystr morph_filterer \<Rightarrow> error + pystr morph_filterer" where
  "register_labels fem msc F =
     (case dict_update (MATCH_GENDER_LABELS F) FEM_LABEL {fem} of Inl e \<Rightarrow> Inl e | Inr m1 \<Rightarrow>
     (case dict_update m1 MSC_LABEL {msc} of Inl e \<Rightarrow> Inl e | Inr m2 \<Rightarrow>
     (case dict_update (OTHER_GENDER_LABELS F) FEM_LABEL {msc} of Inl e \<Rightarrow> Inl e | Inr o1 \<Rightarrow>
     (case dict_update o1 MSC_LABEL {fem} of Inl e \<Rightarrow> Inl e | Inr o2 \<Rightarrow>
        Inr (F\<lparr>MATCH_GENDER_LABELS := m2, OTHER_GENDER_LABELS := o2\<rparr>)))))"

text \<open>
  \<open>RussianMorphFilterer.__init__\<close>. The pymorphy2 tokenizer and analyzer are external; the
  classifier built from them is the parameter \<open>classify\<close>.
\<close>

definition RussianMorphFilterer ::
  "(pystr \<Rightarrow> error + pystr list) \<Rightarrow> error + pystr morph_filterer" where
  "RussianMorphFilterer classify =
     register_labels (py ''femn'') (py ''masc'') (MorphFilterer\<lparr>get_gender_per_word := classify\<rparr>)"

text \<open>
  \<open>SpacyMorphFilterer.__init__\<close>: the language is asserted to be \<open>fr\<close> or \<open>it\<close> before the
  labels are registered. The spaCy pipeline is external; the classifier built from it is the
  parameter \<open>classify\<close>.
\<close>

definition SpacyMorphFilterer ::
  "pystr \<Rightarrow> (pystr \<Rightarrow> error + pystr list) \<Rightarrow> error + pystr morph_filterer" where
  "SpacyMorphFilterer lang classify =
     (if lang = py ''fr'' \<or> lang = py ''it''
      then register_labels (py ''Fem'') (py ''Masc'') (MorphFilterer\<lparr>get_gender_per_word := classify\<rparr>)
      else Inl AssertionError)"

text \<open>
  The loop of \<open>_matches_gender\<close> over the label list, with the flag \<open>has_matching_gender\<close>.
  Both dictionaries are indexed by the requested gender inside the loop body, so an unknown
  gender raises \<open>KeyError\<close> at the first label.
\<close>

fun matches_gender_loop :: "'l morph_filterer \<Rightarrow> pystr \<Rightarrow> bool \<Rightarrow> 'l list \<Rightarrow> error + bool" where
  "matches_gender_loop F gender has_matching_gender [] = Inr has_matching_gender"
| "matches_gender_loop F gender has_matching_gender (current_gender # rest) =
     (case OTHER_GENDER_LABELS F gender of
        None \<Rightarrow> Inl KeyError
      | Some other \<Rightarrow>
          if current_gender \<in> other then Inr False
          else (case MATCH_GENDER_LABELS F gender of
                  None \<Rightarrow> Inl KeyError
                | Some match \<Rightarrow>
                    matches_gender_loop F gender
                      (if current_gender \<in> match then True else has_matching_gender) rest))"

definition matches_gender :: "'l morph_filterer \<Rightarrow> pystr \<Rightarrow> pystr \<Rightarrow> error + bool" where
  "matches_gender F sentence gender =
     (case get_gender_per_word F sentence of
        Inl e \<Rightarrow> Inl e
      | Inr gender_per_word \<Rightarrow> matches_gender_loop F gender False gender_per_word)"


section \<open>morphological_filtering.py: the German and Hebrew classifiers\<close>

text \<open>
  Iterating over a text file yields its lines, each with its terminating newline; only the
  last line may lack one. A file is the text Python sees after newline translation.
\<close>

definition NL :: pychar where
  "NL = 10"

fun file_lines :: "pystr \<Rightarrow> pystr list" where
  "file_lines [] = []"
| "file_lines (c # cs) =
     (if c = NL then [c] # file_lines cs
      else (case file_lines cs of [] \<Rightarrow> [[c]] | l # ls \<Rightarrow> (c # l) # ls))"

text \<open>
  A Python \<open>set\<close> of strings that the code iterates over is a duplicate-free list. Python
  fixes no iteration order; the model uses the order of first insertion.
\<close>

definition set_add :: "'a \<Rightarrow> 'a list \<Rightarrow> 'a list" where
  "set_add x xs = (if x \<in> set xs then xs else xs @ [x])"

text \<open>
  One line of the loop of \<open>GermanMorphFilterer._get_gender_dict\<close>, on the pair
  \<open>(fem_morphs, msc_morphs)\<close>.
\<close>

definition read_morph_line ::
  "(pystr \<Rightarrow> pystr) \<Rightarrow> pystr list \<times> pystr list \<Rightarrow> pystr \<Rightarrow> pystr list \<times> pystr list" where
  "read_morph_line lower morphs line =
     (case py_split (py_strip line) of
        word # tags # _ \<Rightarrow>
          (case py_split_sep 44 tags of
             tag0 # tag1 # _ # _ \<Rightarrow>
               if tag0 = py ''NN'' then
                 if tag1 = py ''fem'' then (set_add (lower word) (fst morphs), snd morphs)
                 else if tag1 = py ''masc'' then (fst morphs, set_add (lower word) (snd morphs))
                 else morphs
               else morphs
           | _ \<Rightarrow> morphs)
      | _ \<Rightarrow> morphs)"

text \<open>
  \<open>GermanMorphFilterer._get_gender_dict\<close>, on the text of the dictionary file
  \<open>GERMAN_MORPH_DICT\<close>.
\<close>

definition get_gender_dict :: "(pystr \<Rightarrow> pystr) \<Rightarrow> pystr \<Rightarrow> (pystr \<rightharpoonup> pystr)" where
  "get_gender_dict lower morphs =
     (let (fem_morphs, msc_morphs) = foldl (read_morph_line lower) ([], []) (file_lines morphs);
          gender_dict = foldl (\<lambda>d word. if word \<notin> set msc_morphs then d(word \<mapsto> FEM_LABEL) else d)
                          Map.empty fem_morphs;
          gender_dict = foldl (\<lambda>d word. if word \<notin> set fem_morphs then d(word \<mapsto> MSC_LABEL) else d)
                          gender_dict msc_morphs
      in gender_dict)"

definition German_get_gender_per_word ::
  "(pystr \<Rightarrow> pystr) \<Rightarrow> (pystr \<rightharpoonup> pystr) \<Rightarrow> pystr \<Rightarrow> pystr list" where
  "German_get_gender_per_word lower gender_dict sentence =
     (let sentence = translate PUNCTUATION_STRIPPER sentence;
          words = remdups (py_split (lower (py_strip sentence)))
      in map (\<lambda>word. case gender_dict word of Some gender \<Rightarrow> gender | None \<Rightarrow> OTHER_LABEL) words)"

definition GermanMorphFilterer :: "(pystr \<Rightarrow> pystr) \<Rightarrow> pystr \<Rightarrow> pystr morph_filterer" where
  "GermanMorphFilterer lower morphs =
     MorphFilterer\<lparr>get_gender_per_word :=
       (\<lambda>sentence. Inr (German_get_gender_per_word lower (get_gender_dict lower morphs) sentence))\<rparr>"

text \<open>
  The Hebrew classifier. \<open>tokenizer\<close> stands for \<open>self.tokenizer(tok).text\<close> of the external
  spaCy tokenizer. The exception token is the two letters U+05D0 U+05EA; \<open>word[-1]\<close> of an
  empty string raises \<open>IndexError\<close>.
\<close>

definition fem_chars :: "pychar set" where
  "fem_chars = {1514, 1492}"

definition msc_chars :: "pychar set" where
  "msc_chars = {1511, 1491, 1512, 1513, 1496, 1489, 1488, 1498, 1500, 1505}"

definition ET :: pystr where
  "ET = [1488, 1514]"

fun Hebrew_loop :: "pystr list \<Rightarrow> pystr list \<Rightarrow> error + pystr list" where
  "Hebrew_loop gender_per_word [] = Inr gender_per_word"
| "Hebrew_loop gender_per_word (word # rest) =
     (if word \<noteq> ET then
        (if word = [] then Inl IndexError
         else if last word \<in> fem_chars then Hebrew_loop (gender_per_word @ [FEM_LABEL]) rest
         else if last word \<in> msc_chars then Hebrew_loop (gender_per_word @ [MSC_LABEL]) rest
         else Hebrew_loop (gender_per_word @ [OTHER_LABEL]) rest)
      else Hebrew_loop (gender_per_word @ [OTHER_LABEL]) rest)"

definition Hebrew_get_gender_per_word :: "(pystr \<Rightarrow> pystr) \<Rightarrow> pystr \<Rightarrow> error + pystr list" where
  "Hebrew_get_gender_per_word tokenizer sentence =
     Hebrew_loop [] (remdups (map tokenizer (py_split sentence)))"

definition HebrewMorphFilterer :: "(pystr \<Rightarrow> pystr) \<Rightarrow> pystr morph_filterer" where
  "HebrewMorphFilterer tokenizer =
     MorphFilterer\<lparr>get_gender_per_word := Hebrew_get_gender_per_word tokenizer\<rparr>"


section \<open>morphological_filtering.py: target_filter\<close>

text \<open>\<open>itertools.zip_longest\<close> with its default fill value \<open>None\<close>.\<close>

fun zip_longest :: "'a list \<Rightarrow> 'b list \<Rightarrow> ('a option \<times> 'b option) list" where
  "zip_longest [] [] = []"
| "zip_longest (x # xs) [] = (Some x, None) # zip_longest xs []"
| "zip_longest [] (y # ys) = (None, Some y) # zip_longest [] ys"
| "zip_longest (x # xs) (y # ys) = (Some x, Some y) # zip_longest xs ys"

text \<open>
  The state of a run: the two counters, the text written so far to the two output files, and
  the line numbers for which a progress message went to standard error. The four files are
  taken to be distinct.
\<close>

record filter_state =
  count_total :: nat
  count_kept :: nat
  out_src :: pystr
  out_trg :: pystr
  progress :: "nat list"

text \<open>
  One iteration of the loop of \<open>target_filter\<close>. The second component is the exception that
  ends the run, if any: \<open>None.split()\<close> raises \<open>AttributeError\<close>, and an exception of
  \<open>_matches_gender\<close> propagates.
\<close>

definition target_filter_pair ::
  "'l morph_filterer \<Rightarrow> pystr \<Rightarrow> filter_state \<Rightarrow> pystr option \<times> pystr option
     \<Rightarrow> filter_state \<times> error option" where
  "target_filter_pair F gender st pair =
     (let st = st\<lparr>count_total := count_total st + 1\<rparr>;
          st = (if count_total st mod 10000 = 0
                then st\<lparr>progress := progress st @ [count_total st]\<rparr> else st)
      in case fst pair of
           None \<Rightarrow> (st, Some AttributeError)
         | Some src_line \<Rightarrow>
             (case snd pair of
                None \<Rightarrow> (st, Some AttributeError)
              | Some trg_line \<Rightarrow>
                  if length (py_split src_line) * 2 < length (py_split trg_line) then (st, None)
                  else (case matches_gender F trg_line gender of
                          Inl e \<Rightarrow> (st, Some e)
                        | Inr keep \<Rightarrow>
                            if keep
                            then (st\<lparr>count_kept := count_kept st + 1,
                                      out_src := out_src st @ src_line,
                                      out_trg := out_trg st @ trg_line\<rparr>, None)
                            else (st, None))))"

fun target_filter_loop ::
  "'l morph_filterer \<Rightarrow> pystr \<Rightarrow> filter_state \<Rightarrow> (pystr option \<times> pystr option) list
     \<Rightarrow> filter_state \<times> error option" where
  "target_filter_loop F gender st [] = (st, None)"
| "target_filter_loop F gender st (pair # pairs) =
     (case target_filter_pair F gender st pair of
        (st', None) \<Rightarrow> target_filter_loop F gender st' pairs
      | (st', Some e) \<Rightarrow> (st', Some e))"

definition filter_start :: filter_state where
  "filter_start = \<lparr>count_total = 0, count_kept = 0, out_src = [], out_trg = [], progress = []\<rparr>"

text \<open>
  \<open>target_filter\<close> on the texts of the two input files: the final state, and the exception if
  the run was ended by one.
\<close>

definition target_filter ::
  "'l morph_filterer \<Rightarrow> pystr \<Rightarrow> pystr \<Rightarrow> pystr \<Rightarrow> filter_state \<times> error option" where
  "target_filter F source_input target_input gender =
     target_filter_loop F gender filter_start
       (zip_longest (file_lines source_input) (file_lines target_input))"

text \<open>What the call returns: the pair of counters, unless an exception ended the run.\<close>

definition returned :: "filter_state \<times> error option \<Rightarrow> error + nat \<times> nat" where
  "returned run =
     (case snd run of
        None \<Rightarrow> Inr (count_total (fst run), count_kept (fst run))
      | Some e \<Rightarrow> Inl e)"


section \<open>source_filter.py\<close>

definition FEM_PRO :: "pystr set" where
  "FEM_PRO = set (py_split_sep 44 (py ''she,her,herself,hers''))"

definition MSC_PRO :: "pystr set" where
  "MSC_PRO = set (py_split_sep 44 (py ''he,him,his,himself''))"

definition FEM_WORDS :: "pystr set" where
  "FEM_WORDS = set (py_split_sep 44 (py
     (''Ms,Mrs,Ms.,Mrs.,madam,woman,women,actress,actresses,airwoman,airwomen,aunts,aunt,girl,girls,bride,'' @
      ''brides,sister,sisters,businesswoman,businesswomen,chairwoman,chairwomen,chick,chicks,mom,moms,mommy,'' @
      ''mommies,daughter,daughters,mother,mothers,female,females,gal,gals,lady,ladies,granddaughter,'' @
      ''granddaughters,wife,wives,queen,queens,policewoman,policewomen,princess,princesses,spokeswoman,'' @
      ''spokeswomen''))) \<union> FEM_PRO"

definition MSC_WORDS :: "pystr set" where
  "MSC_WORDS = set (py_split_sep 44 (py
     (''Mr.,Mr,sir,man,men,actor,actors,uncle,uncles,boys,boy,groom,grooms,brother,brothers,'' @
      ''businessman,businessmen,chairman,chairmen,dude,dudes,dad,dads,daddy,daddies,son,sons,father,fathers,'' @
      ''male,males,guy,guys,gentleman,gentlemen,grandson,grandsons,husband,husbands,king,kings,lord,lords,'' @
      ''policeman,policemen,princes,princes,spokesman,spokesmen''))) \<union> MSC_PRO"

definition get_words :: "(pystr \<Rightarrow> pystr) \<Rightarrow> pystr \<Rightarrow> pystr set" where
  "get_words lower line =
     (let clean_line = translate PUNCTUATION_STRIPPER (py_strip line)
      in set (py_split (lower clean_line)) \<union> set (py_split clean_line))"

definition get_gender :: "(pystr \<Rightarrow> pystr) \<Rightarrow> pystr \<Rightarrow> pystr" where
  "get_gender lower line =
     (let words = get_words lower line;
          has_pro_fem = words \<inter> FEM_PRO;
          has_pro_msc = words \<inter> MSC_PRO;
          has_word_fem = words \<inter> FEM_WORDS;
          has_word_msc = words \<inter> MSC_WORDS
      in if has_pro_fem \<noteq> {} \<and> \<not> has_word_msc \<noteq> {} then FEM_LABEL
         else if has_pro_msc \<noteq> {} \<and> \<not> has_word_fem \<noteq> {} then MSC_LABEL
         else OTHER_LABEL)"

text \<open>
  The state of the loop of \<open>main\<close>: the three counters, the text written so far to the two
  output files, and the line numbers reported to standard error.
\<close>

record source_state =
  count_fem :: nat
  count_msc :: nat
  count_read :: nat
  fem_out :: pystr
  msc_out :: pystr
  reported :: "nat list"

text \<open>
  One iteration of the loop of \<open>main\<close> (\<open>count_read\<close> is its \<open>count_total\<close>). The classifier
  called on the line is the first argument; \<open>main\<close> calls \<open>_get_gender\<close>.
\<close>

definition source_filter_line :: "(pystr \<Rightarrow> pystr) \<Rightarrow> source_state \<Rightarrow> pystr \<Rightarrow> source_state" where
  "source_filter_line classify st line =
     (let st = st\<lparr>count_read := count_read st + 1\<rparr>;
          st = (if count_read st mod 10000 = 0
                then st\<lparr>reported := reported st @ [count_read st]\<rparr> else st)
      in if length line > 1000 then st
         else (let gender = classify line
               in if gender = FEM_LABEL
                  then st\<lparr>count_fem := count_fem st + 1, fem_out := fem_out st @ line\<rparr>
                  else if gender = MSC_LABEL
                  then st\<lparr>count_msc := count_msc st + 1, msc_out := msc_out st @ line\<rparr>
                  else st))"

definition source_start :: source_state where
  "source_start =
     \<lparr>count_fem = 0, count_msc = 0, count_read = 0, fem_out = [], msc_out = [], reported = []\<rparr>"

definition source_filter_lines :: "(pystr \<Rightarrow> pystr) \<Rightarrow> pystr list \<Rightarrow> source_state" where
  "source_filter_lines lower lines =
     foldl (source_filter_line (get_gender lower)) source_start lines"

text \<open>The loop of \<open>main\<close> on the text of the input file.\<close>

definition source_filter :: "(pystr \<Rightarrow> pystr) \<Rightarrow> pystr \<Rightarrow> source_state" where
  "source_filter lower input = source_filter_lines lower (file_lines input)"


section \<open>Notions used to state the properties\<close>

text \<open>
  The two label sets of a filterer for one gender are both present and have no common
  element.
\<close>

definition disjoint_labels :: "'l morph_filterer \<Rightarrow> pystr \<Rightarrow> bool" where
  "disjoint_labels F g =
     (case MATCH_GENDER_LABELS F g of
        None \<Rightarrow> False
      | Some M \<Rightarrow> (case OTHER_GENDER_LABELS F g of None \<Rightarrow> False | Some Ot \<Rightarrow> M \<inter> Ot = {}))"

text \<open>
  The label the Hebrew classifier is said to give a token: the exception token is Other; any
  other token is Feminine if its last character is a feminine suffix character, Masculine if
  it is a masculine one, and Other if it is neither.
\<close>

definition Hebrew_label_ok :: "pystr \<Rightarrow> pystr \<Rightarrow> bool" where
  "Hebrew_label_ok word label \<longleftrightarrow>
     (if word = ET then label = OTHER_LABEL
      else (last word \<in> fem_chars \<longrightarrow> label = FEM_LABEL)
         \<and> (last word \<in> msc_chars \<longrightarrow> label = MSC_LABEL)
         \<and> (last word \<notin> fem_chars \<and> last word \<notin> msc_chars \<longrightarrow> label = OTHER_LABEL))"

text \<open>
  A row of the German dictionary file is a noun row of a gender tag if it has more than one
  field, its second field has more than two comma-separated parts, the first part is \<open>NN\<close>
  and the second is the gender tag. \<open>row_word\<close> is its lowercased first field, and
  \<open>noun_forms\<close> are the word-forms of the noun rows of one gender tag.
\<close>

definition noun_row :: "pystr \<Rightarrow> pystr \<Rightarrow> bool" where
  "noun_row gender_tag line \<longleftrightarrow>
     length (py_split (py_strip line)) > 1
     \<and> (let tag = py_split_sep 44 (py_split (py_strip line) ! 1)
        in length tag > 2 \<and> tag ! 0 = py ''NN'' \<and> tag ! 1 = gender_tag)"

definition row_word :: "(pystr \<Rightarrow> pystr) \<Rightarrow> pystr \<Rightarrow> pystr" where
  "row_word lower line = lower (py_split (py_strip line) ! 0)"

definition noun_forms :: "(pystr \<Rightarrow> pystr) \<Rightarrow> pystr \<Rightarrow> pystr list \<Rightarrow> pystr set" where
  "noun_forms lower gender_tag lines = set (map (row_word lower) (filter (noun_row gender_tag) lines))"

text \<open>
  Two states of the source filter agree on everything written and on the two counters of
  written lines.
\<close>

definition same_written :: "source_state \<Rightarrow> source_state \<Rightarrow> bool" where
  "same_written s t \<longleftrightarrow>
     count_fem s = count_fem t \<and> count_msc s = count_msc t
     \<and> fem_out s = fem_out t \<and> msc_out s = msc_out t"

text \<open>
  Input lines of the source filter, for examples: one with a masculine title after a feminine
  pronoun, one whose pronoun is followed by a full stop, one whose pronoun is capitalised,
  one with a masculine pronoun before a question mark, and one of 1005 characters.
\<close>

definition smith :: pystr where
  "smith = py ''She met Mr. Smith.'' @ [NL]"

definition her_line :: pystr where
  "her_line = py ''I saw her.'' @ [NL]"

definition she_line :: pystr where
  "she_line = py ''She left.'' @ [NL]"

definition his_line :: pystr where
  "his_line = py ''Is that his?'' @ [NL]"

definition long_line :: pystr where
  "long_line = py ''she '' @ replicate 1000 97 @ [NL]"

text \<open>
  The repetition heuristic of \<open>target_filter\<close> on a pair of lines, and the pairs the filter
  keeps: those that pass the heuristic and whose target line matches the gender.
\<close>

definition dropped :: "pystr \<times> pystr \<Rightarrow> bool" where
  "dropped p \<longleftrightarrow> length (py_split (fst p)) * 2 < length (py_split (snd p))"

definition keeps :: "'l morph_filterer \<Rightarrow> pystr \<Rightarrow> pystr \<times> pystr \<Rightarrow> bool" where
  "keeps F g p \<longleftrightarrow> \<not> dropped p \<and> matches_gender F (snd p) g = Inr True"

text \<open>
  A list of aligned pairs as \<open>zip_longest\<close> yields them, and the pairs of a \<open>zip_longest\<close>
  list in which no line is missing.
\<close>

definition aligned :: "(pystr \<times> pystr) list \<Rightarrow> (pystr option \<times> pystr option) list" where
  "aligned ps = map (\<lambda>p. (Some (fst p), Some (snd p))) ps"

fun both :: "('a option \<times> 'b option) list \<Rightarrow> ('a \<times> 'b) list" where
  "both [] = []"
| "both ((Some x, Some y) # pairs) = (x, y) # both pairs"
| "both (pair # pairs) = both pairs"

text \<open>
  A line as file iteration yields it is not empty and has no newline before its last
  character; in a list of such lines all but the last end with a newline.
\<close>

definition line_ok :: "pystr \<Rightarrow> bool" where
  "line_ok l \<longleftrightarrow> l \<noteq> [] \<and> NL \<notin> set (butlast l)"

definition wf_lines :: "pystr list \<Rightarrow> bool" where
  "wf_lines ls \<longleftrightarrow> list_all line_ok ls \<and> list_all (\<lambda>l. last l = NL) (butlast ls)"

text \<open>A three-line parallel corpus, for examples.\<close>

definition demo_source :: pystr where
  "demo_source = py ''the woman goes'' @ [NL] @ py ''the man and the woman'' @ [NL] @ py ''a'' @ [NL]"

definition demo_target :: pystr where
  "demo_target = py ''die frau geht'' @ [NL] @ py ''der mann und die frau'' @ [NL]
                   @ py ''frau frau frau'' @ [NL]"

text \<open>A two-row dictionary file and the German filterer built from it, for examples.\<close>

definition demo_dict :: pystr where
  "demo_dict = py ''Frau NN,fem,sg'' @ [NL] @ py ''Mann NN,masc,sg'' @ [NL]"

definition demo_filterer :: "pystr morph_filterer" where
  "demo_filterer = GermanMorphFilterer ascii_lower demo_dict"


section \<open>Basic facts\<close>

lemma label_codes:
  "FEM_LABEL = [102, 101, 109]" "MSC_LABEL = [109, 115, 99]"
  "OTHER_LABEL = [111, 116, 104, 101, 114]"
  by (simp_all add: FEM_LABEL_def MSC_LABEL_def OTHER_LABEL_def py_def)

lemmas str_defs =
  py_split_def py_def NL_def isspace_def is_punctuation_def py_strip_def translate_def
  PUNCTUATION_STRIPPER_def List.map_filter_def ascii_lower_def py_split_sep_def Let_def set_add_def

lemma file_lines_demo_dict:
  "file_lines demo_dict = [py ''Frau NN,fem,sg'' @ [NL], py ''Mann NN,masc,sg'' @ [NL]]"
  by (simp add: demo_dict_def str_defs)

lemma get_gender_dict_demo:
  "get_gender_dict ascii_lower demo_dict = [py ''frau'' \<mapsto> FEM_LABEL, py ''mann'' \<mapsto> MSC_LABEL]"
  by (simp add: get_gender_dict_def read_morph_line_def file_lines_demo_dict str_defs label_codes)

lemma demo_filterer_tables:
  "MATCH_GENDER_LABELS demo_filterer FEM_LABEL = Some {FEM_LABEL}"
  "OTHER_GENDER_LABELS demo_filterer FEM_LABEL = Some {MSC_LABEL}"
  by (simp_all add: demo_filterer_def GermanMorphFilterer_def MorphFilterer_def label_codes)

lemma demo_filterer_labels:
  "get_gender_per_word demo_filterer (py ''die frau geht'' @ [NL]) =
     Inr [OTHER_LABEL, FEM_LABEL, OTHER_LABEL]"
  "get_gender_per_word demo_filterer (py ''der mann und die frau'' @ [NL]) =
     Inr [OTHER_LABEL, MSC_LABEL, OTHER_LABEL, OTHER_LABEL, FEM_LABEL]"
  "get_gender_per_word demo_filterer (py ''frau frau frau'' @ [NL]) = Inr [FEM_LABEL]"
  by (simp_all add: demo_filterer_def GermanMorphFilterer_def German_get_gender_per_word_def
        get_gender_dict_demo str_defs label_codes)

lemma base_labels_disjoint:
  "disjoint_labels (MorphFilterer\<lparr>get_gender_per_word := c\<rparr>) FEM_LABEL"
  "disjoint_labels (MorphFilterer\<lparr>get_gender_per_word := c\<rparr>) MSC_LABEL"
  by (simp_all add: disjoint_labels_def MorphFilterer_def label_codes)

lemma register_labels_base:
  assumes "fem \<noteq> msc" and "fem \<noteq> MSC_LABEL" and "msc \<noteq> FEM_LABEL"
  shows "\<exists>F. register_labels fem msc (MorphFilterer\<lparr>get_gender_per_word := c\<rparr>) = Inr F
           \<and> disjoint_labels F FEM_LABEL \<and> disjoint_labels F MSC_LABEL"
  using assms
  by (auto simp add: register_labels_def dict_update_def disjoint_labels_def MorphFilterer_def
        label_codes)

lemma py_split_from_nonempty: "[] \<notin> set (py_split_from w s)"
  by (induction s arbitrary: w) auto

lemma py_split_nonempty: "[] \<notin> set (py_split s)"
  by (simp add: py_split_def py_split_from_nonempty)

lemma Hebrew_chars_disjoint: "c \<in> fem_chars \<Longrightarrow> c \<notin> msc_chars"
  by (auto simp add: fem_chars_def msc_chars_def)

lemma Hebrew_loop_labels:
  assumes "[] \<notin> set words"
  shows "\<exists>labels. Hebrew_loop acc words = Inr (acc @ labels) \<and> list_all2 Hebrew_label_ok words labels"
  using assms
proof (induction words arbitrary: acc)
  case Nil
  then show ?case by simp
next
  case (Cons word rest)
  define label where "label =
    (if word = ET then OTHER_LABEL else if last word \<in> fem_chars then FEM_LABEL
     else if last word \<in> msc_chars then MSC_LABEL else OTHER_LABEL)"
  from Cons.prems have ne: "word \<noteq> []" and rest: "[] \<notin> set rest" by auto
  have step: "Hebrew_loop acc (word # rest) = Hebrew_loop (acc @ [label]) rest"
    using ne by (simp add: label_def)
  have ok: "Hebrew_label_ok word label"
    by (auto simp add: Hebrew_label_ok_def label_def dest: Hebrew_chars_disjoint)
  from Cons.IH[OF rest, of "acc @ [label]"] obtain labels
    where "Hebrew_loop (acc @ [label]) rest = Inr ((acc @ [label]) @ labels)"
      and "list_all2 Hebrew_label_ok rest labels" by blast
  with step ok have "Hebrew_loop acc (word # rest) = Inr (acc @ (label # labels))
      \<and> list_all2 Hebrew_label_ok (word # rest) (label # labels)" by simp
  then show ?case by blast
qed

lemma Hebrew_demo:
  "Hebrew_get_gender_per_word id [1488, 1514, 32, 1488, 1492, 32, 1488, 1514, 32, 1489, 1511, 32, 65]
     = Inr [FEM_LABEL, OTHER_LABEL, MSC_LABEL, OTHER_LABEL]"
  by (simp add: Hebrew_get_gender_per_word_def ET_def fem_chars_def msc_chars_def str_defs)

lemma set_set_add: "set (set_add x xs) = insert x (set xs)"
  by (auto simp add: set_add_def)

lemma tag_codes: "py ''fem'' \<noteq> py ''masc''"
  by (simp add: py_def)

lemma noun_row_exclusive: "noun_row (py ''fem'') line \<Longrightarrow> \<not> noun_row (py ''masc'') line"
  using tag_codes by (auto simp add: noun_row_def Let_def)

lemma read_morph_line_eq:
  "read_morph_line lower morphs line =
     (if noun_row (py ''fem'') line then (set_add (row_word lower line) (fst morphs), snd morphs)
      else if noun_row (py ''masc'') line then (fst morphs, set_add (row_word lower line) (snd morphs))
      else morphs)"
  using tag_codes
  by (auto simp add: read_morph_line_def noun_row_def row_word_def Let_def split: list.splits)

lemma foldl_read_morph_line:
  "set (fst (foldl (read_morph_line lower) morphs lines)) =
      set (fst morphs) \<union> noun_forms lower (py ''fem'') lines
   \<and> set (snd (foldl (read_morph_line lower) morphs lines)) =
      set (snd morphs) \<union> noun_forms lower (py ''masc'') lines"
proof (induction lines arbitrary: morphs)
  case Nil
  then show ?case by (simp add: noun_forms_def)
next
  case (Cons line lines)
  show ?case
    using Cons.IH[of "read_morph_line lower morphs line"]
    by (auto simp add: read_morph_line_eq noun_forms_def set_set_add dest: noun_row_exclusive)
qed

lemma foldl_dict_update:
  "foldl (\<lambda>d word. if P word then d(word \<mapsto> label) else d) d0 ws =
     (\<lambda>w. if w \<in> set ws \<and> P w then Some label else d0 w)"
  by (induction ws arbitrary: d0) (auto simp add: fun_eq_iff)

lemma noun_forms_demo:
  "noun_forms ascii_lower (py ''fem'') (file_lines demo_dict) = {py ''frau''}"
  "noun_forms ascii_lower (py ''masc'') (file_lines demo_dict) = {py ''mann''}"
  by (simp_all add: noun_forms_def noun_row_def row_word_def file_lines_demo_dict str_defs)

lemma short_row_demo:
  "\<not> noun_row (py ''fem'') (py ''Frau'')" "\<not> noun_row (py ''masc'') (py ''Frau'')"
  by (simp_all add: noun_row_def str_defs)

lemma labels_distinct:
  "FEM_LABEL \<noteq> MSC_LABEL" "FEM_LABEL \<noteq> OTHER_LABEL" "MSC_LABEL \<noteq> OTHER_LABEL"
  by (simp_all add: label_codes)

lemma pronouns_are_words: "FEM_PRO \<subseteq> FEM_WORDS" "MSC_PRO \<subseteq> MSC_WORDS"
  by (simp_all add: FEM_WORDS_def MSC_WORDS_def)

lemma get_gender_FEM:
  "get_gender lower line = FEM_LABEL \<longleftrightarrow>
     get_words lower line \<inter> FEM_PRO \<noteq> {} \<and> get_words lower line \<inter> MSC_WORDS = {}"
  using labels_distinct by (auto simp add: get_gender_def Let_def)

lemma get_gender_MSC:
  "get_gender lower line = MSC_LABEL \<longleftrightarrow>
     get_words lower line \<inter> MSC_PRO \<noteq> {} \<and> get_words lower line \<inter> FEM_WORDS = {}"
proof -
  have "get_words lower line \<inter> FEM_PRO = {}" if "get_words lower line \<inter> FEM_WORDS = {}"
    using that pronouns_are_words(1) by blast
  then show ?thesis
    using labels_distinct by (auto simp add: get_gender_def Let_def)
qed

lemma get_gender_OTHER:
  "get_gender lower line = OTHER_LABEL \<longleftrightarrow>
     \<not> (get_words lower line \<inter> FEM_PRO \<noteq> {} \<and> get_words lower line \<inter> MSC_WORDS = {})
     \<and> \<not> (get_words lower line \<inter> MSC_PRO \<noteq> {} \<and> get_words lower line \<inter> FEM_WORDS = {})"
  using labels_distinct by (auto simp add: get_gender_def Let_def)

lemma source_filter_line_other:
  assumes "classify line = OTHER_LABEL"
  shows "fem_out (source_filter_line classify st line) = fem_out st"
    and "msc_out (source_filter_line classify st line) = msc_out st"
  using assms labels_distinct by (simp_all add: source_filter_line_def Let_def)

lemma get_words_smith:
  "py ''she'' \<in> get_words ascii_lower smith" "py ''Mr'' \<in> get_words ascii_lower smith"
  by (simp_all add: get_words_def smith_def str_defs)

lemma she_pronoun: "py ''she'' \<in> FEM_PRO"
  by (simp add: FEM_PRO_def str_defs)

lemma Mr_word: "py ''Mr'' \<in> MSC_WORDS"
  by (simp add: MSC_WORDS_def str_defs)

lemma get_gender_smith: "get_gender ascii_lower smith = OTHER_LABEL"
proof -
  from get_words_smith she_pronoun Mr_word pronouns_are_words(1)
  have "get_words ascii_lower smith \<inter> MSC_WORDS \<noteq> {}" "get_words ascii_lower smith \<inter> FEM_WORDS \<noteq> {}"
    by blast+
  then show ?thesis by (simp add: get_gender_OTHER)
qed


lemma translate_strips:
  "translate PUNCTUATION_STRIPPER s = filter (\<lambda>c. \<not> is_punctuation c) s"
  by (induction s) (simp_all add: translate_def PUNCTUATION_STRIPPER_def List.map_filter_def)

lemma py_split_from_chars:
  "token \<in> set (py_split_from w s) \<Longrightarrow> set token \<subseteq> set w \<union> {c \<in> set s. \<not> isspace c}"
proof (induction s arbitrary: w)
  case Nil
  then show ?case by (auto split: if_splits)
next
  case (Cons a s)
  show ?case
  proof (cases "isspace a")
    case True
    with Cons.prems have "token = w \<or> token \<in> set (py_split_from [] s)"
      by (auto split: if_splits)
    then show ?thesis using Cons.IH[of "[]"] by auto
  next
    case False
    with Cons.prems have "token \<in> set (py_split_from (w @ [a]) s)" by simp
    from Cons.IH[OF this] False show ?thesis by auto
  qed
qed

lemma py_split_chars:
  "token \<in> set (py_split s) \<Longrightarrow> c \<in> set token \<Longrightarrow> c \<in> set s \<and> \<not> isspace c"
  using py_split_from_chars[of token "[]" s] by (auto simp add: py_split_def)

lemma stripped_tokens:
  assumes "token \<in> set (py_split (translate PUNCTUATION_STRIPPER (py_strip line)))"
    and "c \<in> set token"
  shows "\<not> is_punctuation c \<and> \<not> isspace c"
  using py_split_chars[OF assms] by (simp add: translate_strips)

lemma get_words_examples:
  "get_words ascii_lower smith =
     {py ''she'', py ''met'', py ''mr'', py ''smith'', py ''She'', py ''Mr'', py ''Smith''}"
  "get_words ascii_lower her_line = {py ''i'', py ''saw'', py ''her'', py ''I''}"
  "get_words ascii_lower she_line = {py ''she'', py ''left'', py ''She''}"
  "get_words ascii_lower his_line = {py ''is'', py ''that'', py ''his'', py ''Is''}"
  by (auto simp add: get_words_def smith_def her_line_def she_line_def his_line_def str_defs)

lemma word_list_codes:
  "FEM_PRO = {py ''she'', py ''her'', py ''herself'', py ''hers''}"
  "MSC_PRO = {py ''he'', py ''him'', py ''his'', py ''himself''}"
  by (simp_all add: FEM_PRO_def MSC_PRO_def py_split_sep_def py_def)

lemma example_words_not_gendered:
  "py ''i'' \<notin> MSC_WORDS" "py ''saw'' \<notin> MSC_WORDS" "py ''her'' \<notin> MSC_WORDS" "py ''I'' \<notin> MSC_WORDS"
  "py ''she'' \<notin> MSC_WORDS" "py ''left'' \<notin> MSC_WORDS" "py ''She'' \<notin> MSC_WORDS"
  "py ''is'' \<notin> FEM_WORDS" "py ''that'' \<notin> FEM_WORDS" "py ''his'' \<notin> FEM_WORDS" "py ''Is'' \<notin> FEM_WORDS"
  by (simp_all add: MSC_WORDS_def FEM_WORDS_def MSC_PRO_def FEM_PRO_def py_split_sep_def py_def)

lemma get_gender_examples:
  "get_gender ascii_lower her_line = FEM_LABEL"
  "get_gender ascii_lower she_line = FEM_LABEL"
  "get_gender ascii_lower his_line = MSC_LABEL"
  by (simp_all add: get_gender_FEM get_gender_MSC get_words_examples word_list_codes
        example_words_not_gendered)

lemma source_filter_line_long:
  assumes "length line > 1000"
  shows "count_read (source_filter_line classify st line) = count_read st + 1"
    and "count_fem (source_filter_line classify st line) = count_fem st"
    and "count_msc (source_filter_line classify st line) = count_msc st"
    and "fem_out (source_filter_line classify st line) = fem_out st"
    and "msc_out (source_filter_line classify st line) = msc_out st"
  using assms by (simp_all add: source_filter_line_def Let_def)

lemma same_written_step:
  "same_written s t \<Longrightarrow> same_written (source_filter_line classify s line) (source_filter_line classify t line)"
  by (simp add: same_written_def source_filter_line_def Let_def)

lemma same_written_foldl:
  "same_written s t \<Longrightarrow>
   same_written (foldl (source_filter_line classify) s lines) (foldl (source_filter_line classify) t lines)"
  by (induction lines arbitrary: s t) (simp_all add: same_written_step)

lemma count_read_step: "count_read (source_filter_line classify st line) = count_read st + 1"
  by (simp add: source_filter_line_def Let_def)

lemma count_read_foldl:
  "count_read (foldl (source_filter_line classify) st lines) = count_read st + length lines"
  by (induction lines arbitrary: st) (simp_all add: count_read_step)

lemma written_foldl:
  "fem_out (foldl (source_filter_line classify) st lines) =
     fem_out st @ concat (filter (\<lambda>l. length l \<le> 1000 \<and> classify l = FEM_LABEL) lines)
   \<and> msc_out (foldl (source_filter_line classify) st lines) =
     msc_out st @ concat (filter (\<lambda>l. length l \<le> 1000 \<and> classify l = MSC_LABEL) lines)"
proof (induction lines arbitrary: st)
  case Nil
  then show ?case by simp
next
  case (Cons line lines)
  show ?case
    using Cons.IH[of "source_filter_line classify st line"] labels_distinct
    by (simp add: source_filter_line_def Let_def)
qed

lemma long_line_length: "length long_line > 1000"
  by (simp add: long_line_def py_def)

lemma matches_gender_loop_eq:
  assumes "MATCH_GENDER_LABELS F g = Some M" and "OTHER_GENDER_LABELS F g = Some Ot"
  shows "matches_gender_loop F g has labels =
           Inr ((has \<or> (\<exists>l\<in>set labels. l \<in> M)) \<and> (\<forall>l\<in>set labels. l \<notin> Ot))"
  using assms by (induction labels arbitrary: has) auto


lemma pair_count_total:
  "count_total (fst (target_filter_pair F g st pair)) = count_total st + 1"
  by (simp add: target_filter_pair_def Let_def split: option.splits sum.splits)

lemma pair_missing:
  assumes "fst pair = None \<or> snd pair = None"
  shows "snd (target_filter_pair F g st pair) = Some AttributeError"
    and "count_kept (fst (target_filter_pair F g st pair)) = count_kept st"
    and "out_src (fst (target_filter_pair F g st pair)) = out_src st"
    and "out_trg (fst (target_filter_pair F g st pair)) = out_trg st"
  using assms by (auto simp add: target_filter_pair_def Let_def split: option.splits)

lemma pair_dropped:
  assumes "dropped (s, t)"
  shows "snd (target_filter_pair F g st (Some s, Some t)) = None"
    and "count_kept (fst (target_filter_pair F g st (Some s, Some t))) = count_kept st"
    and "out_src (fst (target_filter_pair F g st (Some s, Some t))) = out_src st"
    and "out_trg (fst (target_filter_pair F g st (Some s, Some t))) = out_trg st"
  using assms by (simp_all add: target_filter_pair_def dropped_def Let_def)

lemma pair_dropped_any_filterer:
  assumes "dropped (s, t)"
  shows "target_filter_pair F g st (Some s, Some t) = target_filter_pair F' g st (Some s, Some t)"
  using assms by (simp add: target_filter_pair_def dropped_def Let_def)

lemma pair_kept:
  assumes "\<not> dropped (s, t)" and "matches_gender F t g = Inr True"
  shows "snd (target_filter_pair F g st (Some s, Some t)) = None"
    and "count_kept (fst (target_filter_pair F g st (Some s, Some t))) = count_kept st + 1"
    and "out_src (fst (target_filter_pair F g st (Some s, Some t))) = out_src st @ s"
    and "out_trg (fst (target_filter_pair F g st (Some s, Some t))) = out_trg st @ t"
  using assms by (simp_all add: target_filter_pair_def dropped_def Let_def)

lemma pair_not_kept:
  assumes "\<not> dropped (s, t)" and "matches_gender F t g = Inr False"
  shows "snd (target_filter_pair F g st (Some s, Some t)) = None"
    and "count_kept (fst (target_filter_pair F g st (Some s, Some t))) = count_kept st"
    and "out_src (fst (target_filter_pair F g st (Some s, Some t))) = out_src st"
    and "out_trg (fst (target_filter_pair F g st (Some s, Some t))) = out_trg st"
  using assms by (simp_all add: target_filter_pair_def dropped_def Let_def)

lemma pair_raised:
  assumes "\<not> dropped (s, t)" and "matches_gender F t g = Inl e"
  shows "snd (target_filter_pair F g st (Some s, Some t)) = Some e"
    and "count_kept (fst (target_filter_pair F g st (Some s, Some t))) = count_kept st"
    and "out_src (fst (target_filter_pair F g st (Some s, Some t))) = out_src st"
    and "out_trg (fst (target_filter_pair F g st (Some s, Some t))) = out_trg st"
  using assms by (simp_all add: target_filter_pair_def dropped_def Let_def)

lemma pair_aligned:
  assumes "dropped p \<or> (\<exists>b. matches_gender F (snd p) g = Inr b)"
  shows "snd (target_filter_pair F g st (Some (fst p), Some (snd p))) = None"
    and "count_kept (fst (target_filter_pair F g st (Some (fst p), Some (snd p)))) =
           count_kept st + length (filter (keeps F g) [p])"
    and "out_src (fst (target_filter_pair F g st (Some (fst p), Some (snd p)))) =
           out_src st @ concat (map fst (filter (keeps F g) [p]))"
    and "out_trg (fst (target_filter_pair F g st (Some (fst p), Some (snd p)))) =
           out_trg st @ concat (map snd (filter (keeps F g) [p]))"
proof -
  obtain s t where p: "p = (s, t)" by (cases p)
  consider "dropped (s, t)" | "\<not> dropped (s, t)" "matches_gender F t g = Inr True"
    | "\<not> dropped (s, t)" "matches_gender F t g = Inr False"
    using assms p by (cases "dropped (s, t)"; cases "matches_gender F t g = Inr True") auto
  then have "snd (target_filter_pair F g st (Some s, Some t)) = None
    \<and> count_kept (fst (target_filter_pair F g st (Some s, Some t))) =
           count_kept st + length (filter (keeps F g) [(s, t)])
    \<and> out_src (fst (target_filter_pair F g st (Some s, Some t))) =
           out_src st @ concat (map fst (filter (keeps F g) [(s, t)]))
    \<and> out_trg (fst (target_filter_pair F g st (Some s, Some t))) =
           out_trg st @ concat (map snd (filter (keeps F g) [(s, t)]))"
  proof cases
    case 1
    then show ?thesis by (simp add: pair_dropped keeps_def)
  next
    case 2
    then show ?thesis by (simp add: pair_kept keeps_def)
  next
    case 3
    then show ?thesis by (simp add: pair_not_kept keeps_def)
  qed
  then show "snd (target_filter_pair F g st (Some (fst p), Some (snd p))) = None"
    and "count_kept (fst (target_filter_pair F g st (Some (fst p), Some (snd p)))) =
           count_kept st + length (filter (keeps F g) [p])"
    and "out_src (fst (target_filter_pair F g st (Some (fst p), Some (snd p)))) =
           out_src st @ concat (map fst (filter (keeps F g) [p]))"
    and "out_trg (fst (target_filter_pair F g st (Some (fst p), Some (snd p)))) =
           out_trg st @ concat (map snd (filter (keeps F g) [p]))"
    by (simp_all add: p)
qed

lemma loop_aligned:
  assumes "\<forall>p\<in>set ps. dropped p \<or> (\<exists>b. matches_gender F (snd p) g = Inr b)"
  shows "\<exists>st'. target_filter_loop F g st (aligned ps @ rest) = target_filter_loop F g st' rest
           \<and> count_total st' = count_total st + length ps
           \<and> count_kept st' = count_kept st + length (filter (keeps F g) ps)
           \<and> out_src st' = out_src st @ concat (map fst (filter (keeps F g) ps))
           \<and> out_trg st' = out_trg st @ concat (map snd (filter (keeps F g) ps))"
  using assms
proof (induction ps arbitrary: st)
  case Nil
  show ?case by (rule exI[of _ st]) (simp add: aligned_def)
next
  case (Cons p ps)
  let ?step = "target_filter_pair F g st (Some (fst p), Some (snd p))"
  from Cons.prems have here: "dropped p \<or> (\<exists>b. matches_gender F (snd p) g = Inr b)"
    and later: "\<forall>p\<in>set ps. dropped p \<or> (\<exists>b. matches_gender F (snd p) g = Inr b)" by auto
  note step = pair_aligned[OF here, of st] pair_count_total[of F g st "(Some (fst p), Some (snd p))"]
  from step(1) have unfold: "target_filter_loop F g st (aligned (p # ps) @ rest) =
      target_filter_loop F g (fst ?step) (aligned ps @ rest)"
    by (cases ?step) (simp add: aligned_def)
  from Cons.IH[OF later, of "fst ?step"] obtain st'
    where "target_filter_loop F g (fst ?step) (aligned ps @ rest) = target_filter_loop F g st' rest"
      and "count_total st' = count_total (fst ?step) + length ps"
      and "count_kept st' = count_kept (fst ?step) + length (filter (keeps F g) ps)"
      and "out_src st' = out_src (fst ?step) @ concat (map fst (filter (keeps F g) ps))"
      and "out_trg st' = out_trg (fst ?step) @ concat (map snd (filter (keeps F g) ps))"
    by blast
  with unfold step have "target_filter_loop F g st (aligned (p # ps) @ rest) = target_filter_loop F g st' rest
           \<and> count_total st' = count_total st + length (p # ps)
           \<and> count_kept st' = count_kept st + length (filter (keeps F g) (p # ps))
           \<and> out_src st' = out_src st @ concat (map fst (filter (keeps F g) (p # ps)))
           \<and> out_trg st' = out_trg st @ concat (map snd (filter (keeps F g) (p # ps)))"
    by simp
  then show ?case by blast
qed

lemma zip_longest_equal:
  "length xs = length ys \<Longrightarrow> zip_longest xs ys = aligned (zip xs ys)"
  by (induction xs ys rule: zip_longest.induct) (simp_all add: aligned_def)

lemma zip_longest_unequal:
  "length xs \<noteq> length ys \<Longrightarrow>
   \<exists>pair rest. zip_longest xs ys = aligned (zip xs ys) @ pair # rest
       \<and> (fst pair = None \<or> snd pair = None)"
  by (induction xs ys rule: zip_longest.induct) (auto simp add: aligned_def)

lemma both_zip_longest: "both (zip_longest xs ys) = zip xs ys"
  by (induction xs ys rule: zip_longest.induct) simp_all

lemma both_Cons: "both (pair # pairs) = both [pair] @ both pairs"
  by (cases pair; cases "fst pair"; cases "snd pair") auto

lemma loop_missing:
  assumes "fst pair = None \<or> snd pair = None"
  shows "snd (target_filter_loop F g st (pair # rest)) = Some AttributeError"
    and "count_total (fst (target_filter_loop F g st (pair # rest))) = count_total st + 1"
    and "count_kept (fst (target_filter_loop F g st (pair # rest))) = count_kept st"
    and "out_src (fst (target_filter_loop F g st (pair # rest))) = out_src st"
    and "out_trg (fst (target_filter_loop F g st (pair # rest))) = out_trg st"
  using pair_missing[OF assms, of F g st] pair_count_total[of F g st pair]
  by (cases "target_filter_pair F g st pair"; simp)+

lemma loop_never_returns:
  assumes "fst pair = None \<or> snd pair = None"
  shows "snd (target_filter_loop F g st (pairs @ pair # rest)) \<noteq> None"
proof (induction pairs arbitrary: st)
  case Nil
  then show ?case using loop_missing(1)[OF assms, of F g st rest] by simp
next
  case (Cons p pairs)
  show ?case
  proof (cases "target_filter_pair F g st p")
    case (Pair st' err)
    then show ?thesis using Cons.IH[of st'] by (cases err) simp_all
  qed
qed

lemma pair_written:
  "\<exists>k. subseq k (both [pair]) \<and> (\<forall>p\<in>set k. keeps F g p)
     \<and> (snd (target_filter_pair F g st pair) \<noteq> None \<longrightarrow> k = [])
     \<and> count_kept (fst (target_filter_pair F g st pair)) = count_kept st + length k
     \<and> out_src (fst (target_filter_pair F g st pair)) = out_src st @ concat (map fst k)
     \<and> out_trg (fst (target_filter_pair F g st pair)) = out_trg st @ concat (map snd k)"
proof (cases "fst pair = None \<or> snd pair = None")
  case True
  from pair_missing[OF this, of F g st] show ?thesis
    by (intro exI[of _ "[]"]) simp
next
  case False
  then obtain s t where pair: "pair = (Some s, Some t)" by (cases pair) auto
  show ?thesis
  proof (cases "dropped (s, t)")
    case True
    from pair_dropped[OF this, of F g st] show ?thesis
      unfolding pair by (intro exI[of _ "[]"]) simp
  next
    case not_dropped: False
    show ?thesis
    proof (cases "matches_gender F t g")
      case (Inl e)
      from pair_raised[OF not_dropped this, of st] show ?thesis
        unfolding pair by (intro exI[of _ "[]"]) simp
    next
      case (Inr b)
      show ?thesis
      proof (cases b)
        case True
        with Inr have m: "matches_gender F t g = Inr True" by simp
        from pair_kept[OF not_dropped m, of st] not_dropped m show ?thesis
          unfolding pair by (intro exI[of _ "[(s, t)]"]) (simp add: keeps_def)
      next
        case False
        with Inr have m: "matches_gender F t g = Inr False" by simp
        from pair_not_kept[OF not_dropped m, of st] show ?thesis
          unfolding pair by (intro exI[of _ "[]"]) simp
      qed
    qed
  qed
qed

lemma loop_written:
  "\<exists>kept. subseq kept (both pairs) \<and> (\<forall>p\<in>set kept. keeps F g p)
     \<and> count_kept (fst (target_filter_loop F g st pairs)) = count_kept st + length kept
     \<and> out_src (fst (target_filter_loop F g st pairs)) = out_src st @ concat (map fst kept)
     \<and> out_trg (fst (target_filter_loop F g st pairs)) = out_trg st @ concat (map snd kept)"
proof (induction pairs arbitrary: st)
  case Nil
  show ?case by (intro exI[of _ "[]"]) simp
next
  case (Cons pair pairs)
  obtain st' err where step: "target_filter_pair F g st pair = (st', err)"
    by (cases "target_filter_pair F g st pair")
  from pair_written[of pair F g st] step obtain k
    where k: "subseq k (both [pair])" "\<forall>p\<in>set k. keeps F g p" "err \<noteq> None \<longrightarrow> k = []"
      "count_kept st' = count_kept st + length k"
      "out_src st' = out_src st @ concat (map fst k)"
      "out_trg st' = out_trg st @ concat (map snd k)"
    by auto
  show ?case
  proof (cases err)
    case None
    from Cons.IH[of st'] obtain kept
      where kept: "subseq kept (both pairs)" "\<forall>p\<in>set kept. keeps F g p"
        "count_kept (fst (target_filter_loop F g st' pairs)) = count_kept st' + length kept"
        "out_src (fst (target_filter_loop F g st' pairs)) = out_src st' @ concat (map fst kept)"
        "out_trg (fst (target_filter_loop F g st' pairs)) = out_trg st' @ concat (map snd kept)"
      by blast
    have "subseq (k @ kept) (both (pair # pairs))"
      using k(1) kept(1) by (subst both_Cons) (rule list_emb_append_mono)
    with k kept step None show ?thesis
      by (intro exI[of _ "k @ kept"]) auto
  next
    case (Some e)
    with k(3) have "k = []" by simp
    with k step Some show ?thesis
      by (intro exI[of _ "[]"]) simp
  qed
qed

lemma concat_file_lines: "concat (file_lines s) = s"
  by (induction s) (auto split: list.splits)

lemma wf_file_lines: "wf_lines (file_lines s)"
proof (induction s)
  case Nil
  then show ?case by (simp add: wf_lines_def)
next
  case (Cons c cs)
  then show ?case
    by (cases "file_lines cs"; cases "tl (file_lines cs)")
       (auto simp add: wf_lines_def line_ok_def split: if_splits)
qed

lemma file_lines_complete_line:
  assumes "line_ok l" and "last l = NL"
  shows "file_lines (l @ rest) = l # file_lines rest"
  using assms
proof (induction l)
  case Nil
  then show ?case by (simp add: line_ok_def)
next
  case (Cons c l)
  show ?case
  proof (cases "l = []")
    case True
    with Cons.prems show ?thesis by simp
  next
    case False
    with Cons.prems have "c \<noteq> NL" "line_ok l" "last l = NL"
      by (auto simp add: line_ok_def)
    with Cons.IH show ?thesis by simp
  qed
qed

lemma file_lines_last_line:
  assumes "line_ok l"
  shows "file_lines l = [l]"
  using assms
proof (induction l)
  case Nil
  then show ?case by (simp add: line_ok_def)
next
  case (Cons c l)
  show ?case
  proof (cases "l = []")
    case True
    then show ?thesis by simp
  next
    case False
    with Cons.prems have "c \<noteq> NL" "line_ok l"
      by (auto simp add: line_ok_def)
    with Cons.IH show ?thesis by simp
  qed
qed

lemma wf_lines_Cons:
  "wf_lines (l # ls) \<longleftrightarrow> line_ok l \<and> (ls \<noteq> [] \<longrightarrow> last l = NL) \<and> wf_lines ls"
  by (cases ls) (auto simp add: wf_lines_def)

lemma file_lines_concat:
  "wf_lines ls \<Longrightarrow> file_lines (concat ls) = ls"
proof (induction ls)
  case Nil
  then show ?case by simp
next
  case (Cons l ls)
  then have ok: "line_ok l" and rest: "wf_lines ls" and last: "ls \<noteq> [] \<longrightarrow> last l = NL"
    by (simp_all add: wf_lines_Cons)
  show ?case
  proof (cases "ls = []")
    case True
    with ok show ?thesis by (simp add: file_lines_last_line)
  next
    case False
    with last ok Cons.IH[OF rest] show ?thesis by (simp add: file_lines_complete_line)
  qed
qed

lemma wf_lines_subseq:
  "subseq ks ls \<Longrightarrow> wf_lines ls \<Longrightarrow> wf_lines ks"
proof (induction rule: list_emb.induct)
  case (list_emb_Nil ys)
  then show ?case by (simp add: wf_lines_def)
next
  case (list_emb_Cons xs ys y)
  then show ?case by (simp add: wf_lines_Cons)
next
  case (list_emb_Cons2 x y xs ys)
  then have "xs \<noteq> [] \<longrightarrow> ys \<noteq> []" by auto
  with list_emb_Cons2 show ?case by (auto simp add: wf_lines_Cons)
qed

lemma subseq_map_fst_zip: "subseq (map fst (zip xs ys)) xs"
  by (induction xs arbitrary: ys) (auto simp add: zip_Cons1 split: list.splits)

lemma subseq_map_snd_zip: "subseq (map snd (zip xs ys)) ys"
  by (induction ys arbitrary: xs) (auto simp add: zip_Cons split: list.splits)

lemma wf_lines_kept:
  assumes "subseq kept (zip (file_lines src) (file_lines trg))"
  shows "wf_lines (map fst kept)" and "wf_lines (map snd kept)"
proof -
  have "subseq (map fst kept) (map fst (zip (file_lines src) (file_lines trg)))"
    "subseq (map snd kept) (map snd (zip (file_lines src) (file_lines trg)))"
    using assms by (simp_all add: subseq_map)
  then have "subseq (map fst kept) (file_lines src)" "subseq (map snd kept) (file_lines trg)"
    using subseq_map_fst_zip subseq_map_snd_zip subseq_order.trans by blast+
  then show "wf_lines (map fst kept)" and "wf_lines (map snd kept)"
    using wf_file_lines wf_lines_subseq by blast+
qed

lemma demo_source_lines:
  "file_lines demo_source =
     [py ''the woman goes'' @ [NL], py ''the man and the woman'' @ [NL], py ''a'' @ [NL]]"
  by (simp add: demo_source_def py_def NL_def)

lemma demo_target_lines:
  "file_lines demo_target =
     [py ''die frau geht'' @ [NL], py ''der mann und die frau'' @ [NL], py ''frau frau frau'' @ [NL]]"
  by (simp add: demo_target_def py_def NL_def)

lemma demo_first_line: "file_lines (py ''die frau geht'' @ [NL]) = [py ''die frau geht'' @ [NL]]"
  "file_lines (py ''the woman goes'' @ [NL]) = [py ''the woman goes'' @ [NL]]"
  by (simp_all add: py_def NL_def)

lemma demo_matches:
  "matches_gender demo_filterer (py ''die frau geht'' @ [NL]) FEM_LABEL = Inr True"
  "matches_gender demo_filterer (py ''der mann und die frau'' @ [NL]) FEM_LABEL = Inr False"
  "matches_gender demo_filterer (py ''frau frau frau'' @ [NL]) FEM_LABEL = Inr True"
  by (simp_all add: matches_gender_def demo_filterer_labels
        matches_gender_loop_eq[OF demo_filterer_tables] labels_distinct labels_distinct[symmetric]
        del: matches_gender_loop.simps)

lemma demo_dropped:
  "\<not> dropped (py ''the woman goes'' @ [NL], py ''die frau geht'' @ [NL])"
  "\<not> dropped (py ''the man and the woman'' @ [NL], py ''der mann und die frau'' @ [NL])"
  "dropped (py ''a'' @ [NL], py ''frau frau frau'' @ [NL])"
  by (simp_all add: dropped_def py_split_def py_def NL_def isspace_def)

lemma demo_keeps:
  "keeps demo_filterer FEM_LABEL (py ''the woman goes'' @ [NL], py ''die frau geht'' @ [NL])"
  "\<not> keeps demo_filterer FEM_LABEL
       (py ''the man and the woman'' @ [NL], py ''der mann und die frau'' @ [NL])"
  "\<not> keeps demo_filterer FEM_LABEL (py ''a'' @ [NL], py ''frau frau frau'' @ [NL])"
  using demo_dropped demo_matches by (simp_all add: keeps_def)

lemma target_filter_equal_lengths:
  assumes "length (file_lines source_input) = length (file_lines target_input)"
    and "\<forall>p\<in>set (zip (file_lines source_input) (file_lines target_input)).
           dropped p \<or> (\<exists>b. matches_gender F (snd p) g = Inr b)"
  shows "returned (target_filter F source_input target_input g) =
           Inr (length (file_lines source_input),
                length (filter (keeps F g) (zip (file_lines source_input) (file_lines target_input))))"
    and "count_kept (fst (target_filter F source_input target_input g)) =
           length (filter (keeps F g) (zip (file_lines source_input) (file_lines target_input)))"
    and "out_src (fst (target_filter F source_input target_input g)) =
           concat (map fst (filter (keeps F g) (zip (file_lines source_input) (file_lines target_input))))"
    and "out_trg (fst (target_filter F source_input target_input g)) =
           concat (map snd (filter (keeps F g) (zip (file_lines source_input) (file_lines target_input))))"
proof -
  let ?ps = "zip (file_lines source_input) (file_lines target_input)"
  from loop_aligned[OF assms(2), of filter_start "[]"] obtain st'
    where "target_filter_loop F g filter_start (aligned ?ps) = (st', None)"
      and "count_total st' = length ?ps"
      and "count_kept st' = length (filter (keeps F g) ?ps)"
      and "out_src st' = concat (map fst (filter (keeps F g) ?ps))"
      and "out_trg st' = concat (map snd (filter (keeps F g) ?ps))"
    by (auto simp add: filter_start_def)
  with assms(1) show "returned (target_filter F source_input target_input g) =
           Inr (length (file_lines source_input), length (filter (keeps F g) ?ps))"
    and "count_kept (fst (target_filter F source_input target_input g)) =
           length (filter (keeps F g) ?ps)"
    and "out_src (fst (target_filter F source_input target_input g)) =
           concat (map fst (filter (keeps F g) ?ps))"
    and "out_trg (fst (target_filter F source_input target_input g)) =
           concat (map snd (filter (keeps F g) ?ps))"
    by (simp_all add: target_filter_def returned_def zip_longest_equal)
qed

lemma demo_equal: "length (file_lines demo_source) = length (file_lines demo_target)"
  by (simp add: demo_source_lines demo_target_lines)

lemma demo_no_raise:
  "\<forall>p\<in>set (zip (file_lines demo_source) (file_lines demo_target)).
      dropped p \<or> (\<exists>b. matches_gender demo_filterer (snd p) FEM_LABEL = Inr b)"
  by (auto simp add: demo_source_lines demo_target_lines demo_matches demo_dropped)

lemma demo_kept:
  "filter (keeps demo_filterer FEM_LABEL) (zip (file_lines demo_source) (file_lines demo_target))
      = [(py ''the woman goes'' @ [NL], py ''die frau geht'' @ [NL])]"
  by (simp add: demo_source_lines demo_target_lines demo_keeps)

lemma demo_run:
  "returned (target_filter demo_filterer demo_source demo_target FEM_LABEL) = Inr (3, 1)"
  "out_src (fst (target_filter demo_filterer demo_source demo_target FEM_LABEL)) =
     py ''the woman goes'' @ [NL]"
  "out_trg (fst (target_filter demo_filterer demo_source demo_target FEM_LABEL)) =
     py ''die frau geht'' @ [NL]"
  "count_kept (fst (target_filter demo_filterer demo_source demo_target FEM_LABEL)) = 1"
proof -
  have "length (file_lines demo_source) = 3" by (simp add: demo_source_lines)
  with target_filter_equal_lengths[OF demo_equal demo_no_raise]
  show "returned (target_filter demo_filterer demo_source demo_target FEM_LABEL) = Inr (3, 1)"
    and "out_src (fst (target_filter demo_filterer demo_source demo_target FEM_LABEL)) =
     py ''the woman goes'' @ [NL]"
    and "out_trg (fst (target_filter demo_filterer demo_source demo_target FEM_LABEL)) =
     py ''die frau geht'' @ [NL]"
    and "count_kept (fst (target_filter demo_filterer demo_source demo_target FEM_LABEL)) = 1"
    by (simp_all add: demo_kept)
qed

lemma target_filter_unequal:
  assumes "length (file_lines source_input) \<noteq> length (file_lines target_input)"
  shows "\<exists>e. returned (target_filter F source_input target_input g) = Inl e"
    and "\<forall>p\<in>set (zip (file_lines source_input) (file_lines target_input)).
           dropped p \<or> (\<exists>b. matches_gender F (snd p) g = Inr b) \<Longrightarrow>
         returned (target_filter F source_input target_input g) = Inl AttributeError
         \<and> count_total (fst (target_filter F source_input target_input g)) =
             min (length (file_lines source_input)) (length (file_lines target_input)) + 1
         \<and> count_kept (fst (target_filter F source_input target_input g)) =
             length (filter (keeps F g) (zip (file_lines source_input) (file_lines target_input)))
         \<and> out_src (fst (target_filter F source_input target_input g)) =
             concat (map fst (filter (keeps F g) (zip (file_lines source_input) (file_lines target_input))))
         \<and> out_trg (fst (target_filter F source_input target_input g)) =
             concat (map snd (filter (keeps F g) (zip (file_lines source_input) (file_lines target_input))))"
proof -
  let ?ps = "zip (file_lines source_input) (file_lines target_input)"
  from zip_longest_unequal[OF assms] obtain pair rest
    where split: "zip_longest (file_lines source_input) (file_lines target_input) =
        aligned ?ps @ pair # rest"
      and missing: "fst pair = None \<or> snd pair = None" by blast
  from loop_never_returns[OF missing, of F g filter_start "aligned ?ps" rest]
  show "\<exists>e. returned (target_filter F source_input target_input g) = Inl e"
    by (auto simp add: target_filter_def returned_def split)
  assume "\<forall>p\<in>set ?ps. dropped p \<or> (\<exists>b. matches_gender F (snd p) g = Inr b)"
  from loop_aligned[OF this, of filter_start "pair # rest"] obtain st'
    where run: "target_filter_loop F g filter_start (aligned ?ps @ pair # rest) =
            target_filter_loop F g st' (pair # rest)"
      and st': "count_total st' = length ?ps"
        "count_kept st' = length (filter (keeps F g) ?ps)"
        "out_src st' = concat (map fst (filter (keeps F g) ?ps))"
        "out_trg st' = concat (map snd (filter (keeps F g) ?ps))"
    by (auto simp add: filter_start_def)
  from loop_missing[OF missing, of F g st' rest] run st'
  show "returned (target_filter F source_input target_input g) = Inl AttributeError
         \<and> count_total (fst (target_filter F source_input target_input g)) =
             min (length (file_lines source_input)) (length (file_lines target_input)) + 1
         \<and> count_kept (fst (target_filter F source_input target_input g)) =
             length (filter (keeps F g) ?ps)
         \<and> out_src (fst (target_filter F source_input target_input g)) =
             concat (map fst (filter (keeps F g) ?ps))
         \<and> out_trg (fst (target_filter F source_input target_input g)) =
             concat (map snd (filter (keeps F g) ?ps))"
    by (simp add: target_filter_def returned_def split)
qed

lemma target_filter_rerun:
  fixes F :: "'l morph_filterer"
  defines "run \<equiv> \<lambda>src trg g. target_filter F src trg g"
  shows "returned (run (out_src (fst (run src trg g))) (out_trg (fst (run src trg g))) g) =
           Inr (count_kept (fst (run src trg g)), count_kept (fst (run src trg g)))
       \<and> out_src (fst (run (out_src (fst (run src trg g))) (out_trg (fst (run src trg g))) g)) =
           out_src (fst (run src trg g))
       \<and> out_trg (fst (run (out_src (fst (run src trg g))) (out_trg (fst (run src trg g))) g)) =
           out_trg (fst (run src trg g))"
proof -
  let ?st1 = "fst (target_filter F src trg g)"
  from loop_written[of "zip_longest (file_lines src) (file_lines trg)" F g filter_start]
  obtain kept where sub: "subseq kept (zip (file_lines src) (file_lines trg))"
    and keeps: "\<forall>p\<in>set kept. keeps F g p"
    and count: "count_kept ?st1 = length kept"
    and src1: "out_src ?st1 = concat (map fst kept)"
    and trg1: "out_trg ?st1 = concat (map snd kept)"
    by (auto simp add: both_zip_longest target_filter_def filter_start_def)
  from wf_lines_kept[OF sub] have lines: "file_lines (out_src ?st1) = map fst kept"
    "file_lines (out_trg ?st1) = map snd kept"
    by (simp_all add: src1 trg1 file_lines_concat)
  have pairs: "zip_longest (file_lines (out_src ?st1)) (file_lines (out_trg ?st1)) = aligned kept"
    by (simp add: lines zip_longest_equal zip_map_fst_snd)
  from keeps have all: "filter (keeps F g) kept = kept" by simp
  from keeps have "\<forall>p\<in>set kept. dropped p \<or> (\<exists>b. matches_gender F (snd p) g = Inr b)"
    by (auto simp add: keeps_def)
  from loop_aligned[OF this, of filter_start "[]"] obtain st2
    where loop2: "target_filter_loop F g filter_start (aligned kept) = (st2, None)"
      and "count_total st2 = length kept" and "count_kept st2 = length kept"
      and "out_src st2 = concat (map fst kept)" and "out_trg st2 = concat (map snd kept)"
    by (auto simp add: filter_start_def all)
  with count src1 trg1
  have st2: "count_total st2 = count_kept ?st1" "count_kept st2 = count_kept ?st1"
      "out_src st2 = out_src ?st1" "out_trg st2 = out_trg ?st1"
    by simp_all
  have run2: "target_filter F (out_src ?st1) (out_trg ?st1) g = (st2, None)"
    by (simp only: target_filter_def[of F "out_src ?st1"] pairs loop2)
  show ?thesis
    by (simp add: run_def run2 returned_def st2)
qed

lemma demo_short_no_raise:
  "\<forall>p\<in>set (zip (file_lines demo_source) (file_lines (py ''die frau geht'' @ [NL]))).
      dropped p \<or> (\<exists>b. matches_gender demo_filterer (snd p) FEM_LABEL = Inr b)"
  by (auto simp add: demo_source_lines demo_first_line demo_matches)

lemma demo_short_lengths:
  "length (file_lines demo_source) \<noteq> length (file_lines (py ''die frau geht'' @ [NL]))"
  by (simp add: demo_source_lines demo_first_line)


section \<open>The sentence-level verdict\<close>

text \<open>
  C1. Whenever the classifier returns a label list and the requested gender is a key of both
  label dictionaries (as \<open>fem\<close> and \<open>msc\<close> are for every filterer of the family),
  \<open>_matches_gender\<close> returns true exactly if some label is in the matching set and no label
  is in the other set. Hence a sentence whose label list is a permutation of this one gets
  the same verdict, and a label list that meets neither set gives false.
\<close>

theorem matches_gender_iff:
  assumes "MATCH_GENDER_LABELS F g = Some M" and "OTHER_GENDER_LABELS F g = Some Ot"
    and "get_gender_per_word F sentence = Inr labels"
  shows "matches_gender F sentence g = Inr ((\<exists>l\<in>set labels. l \<in> M) \<and> (\<forall>l\<in>set labels. l \<notin> Ot))
       \<and> (\<forall>sentence' labels'. get_gender_per_word F sentence' = Inr labels' \<and> mset labels' = mset labels
            \<longrightarrow> matches_gender F sentence' g = matches_gender F sentence g)
       \<and> (set labels \<inter> (M \<union> Ot) = {} \<longrightarrow> matches_gender F sentence g = Inr False)"
proof -
  have verdict: "matches_gender F s g = Inr ((\<exists>l\<in>set ls. l \<in> M) \<and> (\<forall>l\<in>set ls. l \<notin> Ot))"
    if "get_gender_per_word F s = Inr ls" for s ls
    using that assms(1,2) by (simp add: matches_gender_def matches_gender_loop_eq)
  have perm: "matches_gender F s' g = matches_gender F sentence g"
    if "get_gender_per_word F s' = Inr ls'" and "mset ls' = mset labels" for s' ls'
  proof -
    from that(2) have "set ls' = set labels" by (rule mset_eq_setD)
    with verdict[OF that(1)] verdict[OF assms(3)] show ?thesis by simp
  qed
  have none: "matches_gender F sentence g = Inr False" if "set labels \<inter> (M \<union> Ot) = {}"
    using that verdict[OF assms(3)] by auto
  from verdict[OF assms(3)] perm none show ?thesis by blast
qed

theorem matches_gender_iff_witness:
  "MATCH_GENDER_LABELS demo_filterer FEM_LABEL = Some {FEM_LABEL}
   \<and> OTHER_GENDER_LABELS demo_filterer FEM_LABEL = Some {MSC_LABEL}
   \<and> get_gender_per_word demo_filterer (py ''die frau geht'' @ [NL]) =
        Inr [OTHER_LABEL, FEM_LABEL, OTHER_LABEL]
   \<and> matches_gender demo_filterer (py ''die frau geht'' @ [NL]) FEM_LABEL = Inr True"
  using matches_gender_iff[OF demo_filterer_tables demo_filterer_labels(1)]
    demo_filterer_tables demo_filterer_labels(1)
  by (simp add: label_codes)


section \<open>The label tables\<close>

text \<open>
  C9. After construction of the base filterer, the German, Hebrew and Russian filterers and
  the spaCy filterer for \<open>fr\<close> and for \<open>it\<close>, the matching and the other label set of \<open>fem\<close>
  are disjoint, and so are those of \<open>msc\<close>; the Russian and spaCy constructors succeed.
\<close>

theorem label_sets_disjoint:
  "disjoint_labels MorphFilterer FEM_LABEL \<and> disjoint_labels MorphFilterer MSC_LABEL
   \<and> disjoint_labels (GermanMorphFilterer lower morphs) FEM_LABEL
   \<and> disjoint_labels (GermanMorphFilterer lower morphs) MSC_LABEL
   \<and> disjoint_labels (HebrewMorphFilterer tokenizer) FEM_LABEL
   \<and> disjoint_labels (HebrewMorphFilterer tokenizer) MSC_LABEL
   \<and> (\<exists>F. RussianMorphFilterer classify = Inr F
          \<and> disjoint_labels F FEM_LABEL \<and> disjoint_labels F MSC_LABEL)
   \<and> (\<exists>F. SpacyMorphFilterer (py ''fr'') classify = Inr F
          \<and> disjoint_labels F FEM_LABEL \<and> disjoint_labels F MSC_LABEL)
   \<and> (\<exists>F. SpacyMorphFilterer (py ''it'') classify = Inr F
          \<and> disjoint_labels F FEM_LABEL \<and> disjoint_labels F MSC_LABEL)"
proof -
  have base: "disjoint_labels MorphFilterer FEM_LABEL \<and> disjoint_labels MorphFilterer MSC_LABEL"
    using base_labels_disjoint[of "get_gender_per_word MorphFilterer"] by simp
  have russian: "\<exists>F. RussianMorphFilterer classify = Inr F
          \<and> disjoint_labels F FEM_LABEL \<and> disjoint_labels F MSC_LABEL"
    unfolding RussianMorphFilterer_def
    by (rule register_labels_base) (simp_all add: py_def label_codes)
  have spacy: "\<exists>F. register_labels (py ''Fem'') (py ''Masc'')
             (MorphFilterer\<lparr>get_gender_per_word := classify\<rparr>) = Inr F
          \<and> disjoint_labels F FEM_LABEL \<and> disjoint_labels F MSC_LABEL"
    by (rule register_labels_base) (simp_all add: py_def label_codes)
  from base base_labels_disjoint russian spacy show ?thesis
    by (simp add: GermanMorphFilterer_def HebrewMorphFilterer_def SpacyMorphFilterer_def)
qed

section \<open>The German gender dictionary\<close>

text \<open>
  C5. The dictionary built from a dictionary file maps a word to Feminine exactly if it is
  the lowercased word-form of a feminine noun row and of no masculine noun row, to Masculine
  exactly if it is the word-form of a masculine noun row and of no feminine one, and has no
  entry for any other word; so a word-form with rows of both genders is absent. A row that is
  not a noun row of either gender (too few fields, too few tag parts, not \<open>NN\<close>, another
  gender tag) leaves both word sets as they are.
\<close>

theorem gender_dict_unambiguous:
  "get_gender_dict lower morphs w =
     (if w \<in> noun_forms lower (py ''fem'') (file_lines morphs)
         \<and> w \<notin> noun_forms lower (py ''masc'') (file_lines morphs) then Some FEM_LABEL
      else if w \<in> noun_forms lower (py ''masc'') (file_lines morphs)
         \<and> w \<notin> noun_forms lower (py ''fem'') (file_lines morphs) then Some MSC_LABEL
      else None)
   \<and> (\<not> noun_row (py ''fem'') line \<and> \<not> noun_row (py ''masc'') line
        \<longrightarrow> read_morph_line lower sets line = sets)"
proof -
  obtain fem_morphs msc_morphs
    where fold: "foldl (read_morph_line lower) ([], []) (file_lines morphs) = (fem_morphs, msc_morphs)"
    by (cases "foldl (read_morph_line lower) ([], []) (file_lines morphs)")
  from foldl_read_morph_line[of lower "([], [])" "file_lines morphs"] fold
  have sets: "set fem_morphs = noun_forms lower (py ''fem'') (file_lines morphs)"
    "set msc_morphs = noun_forms lower (py ''masc'') (file_lines morphs)" by simp_all
  have "get_gender_dict lower morphs w =
     (if w \<in> set msc_morphs \<and> w \<notin> set fem_morphs then Some MSC_LABEL
      else if w \<in> set fem_morphs \<and> w \<notin> set msc_morphs then Some FEM_LABEL else None)"
    by (simp add: get_gender_dict_def fold foldl_dict_update)
  then show ?thesis by (auto simp add: sets read_morph_line_eq)
qed

theorem gender_dict_unambiguous_witness:
  "get_gender_dict ascii_lower demo_dict (py ''frau'') = Some FEM_LABEL
   \<and> get_gender_dict ascii_lower demo_dict (py ''mann'') = Some MSC_LABEL
   \<and> read_morph_line ascii_lower ([py ''frau''], []) (py ''Frau'') = ([py ''frau''], [])"
proof -
  have distinct_forms: "py ''frau'' \<noteq> py ''mann''" by (simp add: py_def)
  show ?thesis
    using gender_dict_unambiguous[of ascii_lower demo_dict "py ''frau''" "py ''Frau''" "([py ''frau''], [])"]
      gender_dict_unambiguous[of ascii_lower demo_dict "py ''mann''" "py ''Frau''" "([py ''frau''], [])"]
      short_row_demo distinct_forms
    by (simp add: noun_forms_demo)
qed


section \<open>The Hebrew classifier\<close>

text \<open>
  C6. If the tokenizer returns a non-empty text for every non-empty token, the Hebrew
  classifier returns one label for each distinct token of the sentence, and each label is
  the one described: Other for the exception token, and otherwise Feminine, Masculine or
  Other according to the token's last character.
\<close>

theorem Hebrew_gender_per_word:
  assumes "\<forall>tok. tok \<noteq> [] \<longrightarrow> tokenizer tok \<noteq> []"
  shows "\<exists>words labels.
           Hebrew_get_gender_per_word tokenizer sentence = Inr labels
         \<and> distinct words \<and> set words = tokenizer ` set (py_split sentence)
         \<and> list_all2 Hebrew_label_ok words labels"
proof -
  let ?words = "remdups (map tokenizer (py_split sentence))"
  have "tokenizer tok \<noteq> []" if "tok \<in> set (py_split sentence)" for tok
    using that assms py_split_nonempty[of sentence] by metis
  then have "[] \<notin> set ?words" by force
  from Hebrew_loop_labels[OF this, of "[]"] obtain labels
    where "Hebrew_loop [] ?words = Inr labels" and "list_all2 Hebrew_label_ok ?words labels"
    by auto
  then have "Hebrew_get_gender_per_word tokenizer sentence = Inr labels
     \<and> distinct ?words \<and> set ?words = tokenizer ` set (py_split sentence)
     \<and> list_all2 Hebrew_label_ok ?words labels"
    by (simp add: Hebrew_get_gender_per_word_def)
  then show ?thesis by blast
qed

theorem Hebrew_gender_per_word_witness:
  "Hebrew_get_gender_per_word id [1488, 1514, 32, 1488, 1492, 32, 1488, 1514, 32, 1489, 1511, 32, 65]
     = Inr [FEM_LABEL, OTHER_LABEL, MSC_LABEL, OTHER_LABEL]
   \<and> (\<exists>words. distinct words
        \<and> set words = id ` set (py_split [1488, 1514, 32, 1488, 1492, 32, 1488, 1514, 32, 1489, 1511, 32, 65])
        \<and> list_all2 Hebrew_label_ok words [FEM_LABEL, OTHER_LABEL, MSC_LABEL, OTHER_LABEL])"
  using Hebrew_gender_per_word[of id "[1488, 1514, 32, 1488, 1492, 32, 1488, 1514, 32, 1489, 1511, 32, 65]"]
  by (simp add: Hebrew_demo)

section \<open>The source filter\<close>

text \<open>
  C4. With \<open>words\<close> the union of the lowercased and the original-case tokens of the stripped,
  punctuation-free line, \<open>_get_gender\<close> returns Feminine exactly if \<open>words\<close> meets the
  feminine pronouns and no masculine word, Masculine exactly if it meets the masculine
  pronouns and no feminine word, and Other exactly in the remaining case; a line classified
  Other is written to neither output. The punctuation stripper deletes exactly the 32
  punctuation characters, so no token has a punctuation or whitespace character. The line
  \<open>She met Mr. Smith.\<close> has the words she, met, mr, smith, She, Mr, Smith and is classified
  Other; \<open>I saw her.\<close> has the words i, saw, her, I and is Feminine, as is \<open>She left.\<close>;
  \<open>Is that his?\<close> is Masculine.
\<close>

theorem get_gender_cases:
  "(get_gender lower line = FEM_LABEL \<longleftrightarrow>
      get_words lower line \<inter> FEM_PRO \<noteq> {} \<and> get_words lower line \<inter> MSC_WORDS = {})
   \<and> (get_gender lower line = MSC_LABEL \<longleftrightarrow>
      get_words lower line \<inter> MSC_PRO \<noteq> {} \<and> get_words lower line \<inter> FEM_WORDS = {})
   \<and> (get_gender lower line = OTHER_LABEL \<longleftrightarrow>
      \<not> (get_words lower line \<inter> FEM_PRO \<noteq> {} \<and> get_words lower line \<inter> MSC_WORDS = {})
      \<and> \<not> (get_words lower line \<inter> MSC_PRO \<noteq> {} \<and> get_words lower line \<inter> FEM_WORDS = {}))
   \<and> get_words lower line =
        set (py_split (lower (translate PUNCTUATION_STRIPPER (py_strip line))))
        \<union> set (py_split (translate PUNCTUATION_STRIPPER (py_strip line)))
   \<and> (get_gender lower line = OTHER_LABEL \<longrightarrow>
        fem_out (source_filter_line (get_gender lower) st line) = fem_out st
        \<and> msc_out (source_filter_line (get_gender lower) st line) = msc_out st)
   \<and> get_gender ascii_lower (py ''She met Mr. Smith.'' @ [NL]) = OTHER_LABEL
   \<and> translate PUNCTUATION_STRIPPER text = filter (\<lambda>c. \<not> is_punctuation c) text
   \<and> (\<forall>token\<in>set (py_split (translate PUNCTUATION_STRIPPER (py_strip line))).
          \<forall>c\<in>set token. \<not> is_punctuation c \<and> \<not> isspace c)
   \<and> get_words ascii_lower (py ''She met Mr. Smith.'' @ [NL]) =
        {py ''she'', py ''met'', py ''mr'', py ''smith'', py ''She'', py ''Mr'', py ''Smith''}
   \<and> get_words ascii_lower (py ''I saw her.'' @ [NL]) = {py ''i'', py ''saw'', py ''her'', py ''I''}
   \<and> get_gender ascii_lower (py ''I saw her.'' @ [NL]) = FEM_LABEL
   \<and> get_gender ascii_lower (py ''She left.'' @ [NL]) = FEM_LABEL
   \<and> get_gender ascii_lower (py ''Is that his?'' @ [NL]) = MSC_LABEL"
proof -
  have words: "get_words lower line =
        set (py_split (lower (translate PUNCTUATION_STRIPPER (py_strip line))))
        \<union> set (py_split (translate PUNCTUATION_STRIPPER (py_strip line)))"
    by (simp add: get_words_def Let_def)
  have example: "get_gender ascii_lower (py ''She met Mr. Smith.'' @ [NL]) = OTHER_LABEL"
    using get_gender_smith by (simp add: smith_def)
  have neither: "get_gender lower line = OTHER_LABEL \<longrightarrow>
        fem_out (source_filter_line (get_gender lower) st line) = fem_out st
        \<and> msc_out (source_filter_line (get_gender lower) st line) = msc_out st"
    by (simp add: source_filter_line_other)
  have tokens: "\<forall>token\<in>set (py_split (translate PUNCTUATION_STRIPPER (py_strip line))).
          \<forall>c\<in>set token. \<not> is_punctuation c \<and> \<not> isspace c"
    using stripped_tokens by blast
  have smith_words: "get_words ascii_lower (py ''She met Mr. Smith.'' @ [NL]) =
        {py ''she'', py ''met'', py ''mr'', py ''smith'', py ''She'', py ''Mr'', py ''Smith''}"
    using get_words_examples(1) by (simp add: smith_def)
  have her_words: "get_words ascii_lower (py ''I saw her.'' @ [NL]) =
        {py ''i'', py ''saw'', py ''her'', py ''I''}"
    using get_words_examples(2) by (simp add: her_line_def)
  have her: "get_gender ascii_lower (py ''I saw her.'' @ [NL]) = FEM_LABEL"
    using get_gender_examples(1) by (simp add: her_line_def)
  have she: "get_gender ascii_lower (py ''She left.'' @ [NL]) = FEM_LABEL"
    using get_gender_examples(2) by (simp add: she_line_def)
  have his: "get_gender ascii_lower (py ''Is that his?'' @ [NL]) = MSC_LABEL"
    using get_gender_examples(3) by (simp add: his_line_def)
  show ?thesis
    by (intro conjI get_gender_FEM get_gender_MSC get_gender_OTHER words neither example
          translate_strips tokens smith_words her_words her she his)
qed

theorem get_gender_cases_witness:
  "get_gender ascii_lower smith = OTHER_LABEL
   \<and> fem_out (source_filter_line (get_gender ascii_lower) source_start smith) = []
   \<and> msc_out (source_filter_line (get_gender ascii_lower) source_start smith) = []
   \<and> py ''her'' \<in> get_words ascii_lower her_line \<inter> FEM_PRO
   \<and> get_words ascii_lower her_line \<inter> MSC_WORDS = {}
   \<and> get_gender ascii_lower her_line = FEM_LABEL
   \<and> fem_out (source_filter_line (get_gender ascii_lower) source_start her_line) = her_line"
proof -
  note smith_case = get_gender_cases[of ascii_lower smith source_start]
  note her_case = get_gender_cases[of ascii_lower her_line source_start]
  from smith_case get_gender_smith
  have "fem_out (source_filter_line (get_gender ascii_lower) source_start smith) = fem_out source_start
      \<and> msc_out (source_filter_line (get_gender ascii_lower) source_start smith) = msc_out source_start"
    by blast
  then have unwritten: "fem_out (source_filter_line (get_gender ascii_lower) source_start smith) = []
      \<and> msc_out (source_filter_line (get_gender ascii_lower) source_start smith) = []"
    by (simp add: source_start_def)
  have pronoun: "py ''her'' \<in> get_words ascii_lower her_line \<inter> FEM_PRO"
    by (simp add: get_words_examples word_list_codes)
  have no_masculine: "get_words ascii_lower her_line \<inter> MSC_WORDS = {}"
    by (simp add: get_words_examples example_words_not_gendered)
  from her_case pronoun no_masculine have fem: "get_gender ascii_lower her_line = FEM_LABEL"
    by blast
  have "length her_line \<le> 1000" by (simp add: her_line_def py_def)
  with fem have written: "fem_out (source_filter_line (get_gender ascii_lower) source_start her_line) = her_line"
    by (simp add: source_filter_line_def source_start_def Let_def)
  from get_gender_smith unwritten pronoun no_masculine fem written show ?thesis by simp
qed

text \<open>
  C8. A line of more than 1000 characters adds one to the count of lines read and changes
  neither output nor the counts of written lines, whatever classifier the loop would call:
  the classifier has no part in the step. The run goes on with the next line: with or
  without the long line, the rest of the input gives the same outputs.
\<close>

theorem long_line_skipped:
  assumes "length line > 1000"
  shows "count_read (source_filter_line classify st line) = count_read st + 1
       \<and> count_fem (source_filter_line classify st line) = count_fem st
       \<and> count_msc (source_filter_line classify st line) = count_msc st
       \<and> fem_out (source_filter_line classify st line) = fem_out st
       \<and> msc_out (source_filter_line classify st line) = msc_out st
       \<and> count_read (source_filter_lines lower (before @ line # after)) =
           count_read (source_filter_lines lower (before @ after)) + 1
       \<and> same_written (source_filter_lines lower (before @ line # after))
           (source_filter_lines lower (before @ after))"
proof -
  let ?step = "source_filter_line (get_gender lower)"
  let ?mid = "foldl ?step source_start before"
  have "same_written (?step ?mid line) ?mid"
    using source_filter_line_long[OF assms, of "get_gender lower" ?mid]
    by (simp add: same_written_def)
  then have "same_written (foldl ?step (?step ?mid line) after) (foldl ?step ?mid after)"
    by (rule same_written_foldl)
  then have written: "same_written (source_filter_lines lower (before @ line # after))
           (source_filter_lines lower (before @ after))"
    by (simp add: source_filter_lines_def)
  have "count_read (source_filter_lines lower (before @ line # after)) =
           count_read (source_filter_lines lower (before @ after)) + 1"
    by (simp add: source_filter_lines_def count_read_foldl count_read_step)
  with written source_filter_line_long[OF assms, of classify st] show ?thesis by simp
qed

theorem long_line_skipped_witness:
  "count_read (source_filter_line (get_gender ascii_lower) source_start long_line) = 1
   \<and> fem_out (source_filter_line (get_gender ascii_lower) source_start long_line) = []
   \<and> msc_out (source_filter_line (get_gender ascii_lower) source_start long_line) = []
   \<and> count_read (source_filter_lines ascii_lower [long_line]) = 1
   \<and> same_written (source_filter_lines ascii_lower [long_line]) source_start"
  using long_line_skipped[OF long_line_length, of "get_gender ascii_lower" source_start ascii_lower "[]" "[]"]
  by (simp add: source_start_def source_filter_lines_def)

section \<open>The target filter\<close>

text \<open>
  C3. Every aligned pair adds one to the total. If the target line has more than twice as
  many whitespace tokens as the source line, nothing is written and the kept count stays,
  and the step is the same for every filterer, so \<open>_matches_gender\<close> has no part in it.
  Otherwise, if \<open>_matches_gender\<close> returns true both lines are appended to the outputs and the
  kept count goes up by one, and if it returns false nothing changes. On inputs with equally
  many lines on which the classifier, where it is called, does not raise, the function
  returns the number of pairs and the number of kept pairs.
\<close>

theorem target_filter_pair_cases:
  "count_total (fst (target_filter_pair F g st (Some src_line, Some trg_line))) = count_total st + 1
   \<and> (length (py_split src_line) * 2 < length (py_split trg_line) \<longrightarrow>
        target_filter_pair F g st (Some src_line, Some trg_line) =
          target_filter_pair F' g st (Some src_line, Some trg_line)
        \<and> snd (target_filter_pair F g st (Some src_line, Some trg_line)) = None
        \<and> count_kept (fst (target_filter_pair F g st (Some src_line, Some trg_line))) = count_kept st
        \<and> out_src (fst (target_filter_pair F g st (Some src_line, Some trg_line))) = out_src st
        \<and> out_trg (fst (target_filter_pair F g st (Some src_line, Some trg_line))) = out_trg st)
   \<and> (\<not> length (py_split src_line) * 2 < length (py_split trg_line)
        \<and> matches_gender F trg_line g = Inr True \<longrightarrow>
        snd (target_filter_pair F g st (Some src_line, Some trg_line)) = None
        \<and> count_kept (fst (target_filter_pair F g st (Some src_line, Some trg_line))) = count_kept st + 1
        \<and> out_src (fst (target_filter_pair F g st (Some src_line, Some trg_line))) = out_src st @ src_line
        \<and> out_trg (fst (target_filter_pair F g st (Some src_line, Some trg_line))) = out_trg st @ trg_line)
   \<and> (\<not> length (py_split src_line) * 2 < length (py_split trg_line)
        \<and> matches_gender F trg_line g = Inr False \<longrightarrow>
        snd (target_filter_pair F g st (Some src_line, Some trg_line)) = None
        \<and> count_kept (fst (target_filter_pair F g st (Some src_line, Some trg_line))) = count_kept st
        \<and> out_src (fst (target_filter_pair F g st (Some src_line, Some trg_line))) = out_src st
        \<and> out_trg (fst (target_filter_pair F g st (Some src_line, Some trg_line))) = out_trg st)
   \<and> (length (file_lines source_input) = length (file_lines target_input)
        \<and> (\<forall>p\<in>set (zip (file_lines source_input) (file_lines target_input)).
              dropped p \<or> (\<exists>b. matches_gender F (snd p) g = Inr b)) \<longrightarrow>
        returned (target_filter F source_input target_input g) =
          Inr (length (file_lines source_input),
               length (filter (keeps F g) (zip (file_lines source_input) (file_lines target_input)))))"
proof -
  let ?drop = "length (py_split src_line) * 2 < length (py_split trg_line)"
  have d: "dropped (src_line, trg_line) \<longleftrightarrow> ?drop" by (simp add: dropped_def)
  show ?thesis
    using pair_count_total[of F g st "(Some src_line, Some trg_line)"]
      pair_dropped[of src_line trg_line F g st]
      pair_dropped_any_filterer[of src_line trg_line F g st F']
      pair_kept[of src_line trg_line F g st]
      pair_not_kept[of src_line trg_line F g st]
      target_filter_equal_lengths(1)[of source_input target_input F g]
    unfolding d by blast
qed

theorem target_filter_pair_cases_witness:
  "count_kept (fst (target_filter_pair demo_filterer FEM_LABEL filter_start
      (Some (py ''a'' @ [NL]), Some (py ''frau frau frau'' @ [NL])))) = 0
   \<and> out_trg (fst (target_filter_pair demo_filterer FEM_LABEL filter_start
      (Some (py ''a'' @ [NL]), Some (py ''frau frau frau'' @ [NL])))) = []
   \<and> returned (target_filter demo_filterer demo_source demo_target FEM_LABEL) = Inr (3, 1)"
proof -
  have d: "length (py_split (py ''a'' @ [NL])) * 2 < length (py_split (py ''frau frau frau'' @ [NL]))"
    using demo_dropped(3) by (simp add: dropped_def)
  note cases = target_filter_pair_cases[of demo_filterer FEM_LABEL filter_start "py ''a'' @ [NL]"
        "py ''frau frau frau'' @ [NL]" demo_filterer demo_source demo_target]
  from cases d have "count_kept (fst (target_filter_pair demo_filterer FEM_LABEL filter_start
      (Some (py ''a'' @ [NL]), Some (py ''frau frau frau'' @ [NL])))) = count_kept filter_start
    \<and> out_trg (fst (target_filter_pair demo_filterer FEM_LABEL filter_start
      (Some (py ''a'' @ [NL]), Some (py ''frau frau frau'' @ [NL])))) = out_trg filter_start"
    by blast
  moreover from cases demo_equal demo_no_raise
  have "returned (target_filter demo_filterer demo_source demo_target FEM_LABEL) =
      Inr (length (file_lines demo_source),
           length (filter (keeps demo_filterer FEM_LABEL)
             (zip (file_lines demo_source) (file_lines demo_target))))"
    by blast
  moreover have "length (file_lines demo_source) = 3"
    by (simp add: demo_source_lines)
  ultimately show ?thesis
    by (simp add: demo_kept filter_start_def)
qed

text \<open>
  C2, as amended. If the two inputs have different numbers of lines, \<open>target_filter\<close> does not
  return counts: the line missing from the shorter input is \<open>None\<close>, not an empty string. If
  the classifier does not raise on the pairs before it, all these pairs are processed as
  usual, the first excess line is counted in the total, and the run ends there with
  \<open>AttributeError\<close>.
\<close>

theorem target_filter_unequal_lengths:
  assumes "length (file_lines source_input) \<noteq> length (file_lines target_input)"
  shows "(\<exists>e. returned (target_filter F source_input target_input g) = Inl e)
     \<and> ((\<forall>p\<in>set (zip (file_lines source_input) (file_lines target_input)).
            dropped p \<or> (\<exists>b. matches_gender F (snd p) g = Inr b)) \<longrightarrow>
         returned (target_filter F source_input target_input g) = Inl AttributeError
         \<and> count_total (fst (target_filter F source_input target_input g)) =
             min (length (file_lines source_input)) (length (file_lines target_input)) + 1
         \<and> count_kept (fst (target_filter F source_input target_input g)) =
             length (filter (keeps F g) (zip (file_lines source_input) (file_lines target_input)))
         \<and> out_src (fst (target_filter F source_input target_input g)) =
             concat (map fst (filter (keeps F g) (zip (file_lines source_input) (file_lines target_input))))
         \<and> out_trg (fst (target_filter F source_input target_input g)) =
             concat (map snd (filter (keeps F g) (zip (file_lines source_input) (file_lines target_input)))))"
  using target_filter_unequal[OF assms, of F g] by blast

theorem target_filter_unequal_lengths_witness:
  "returned (target_filter demo_filterer demo_source (py ''die frau geht'' @ [NL]) FEM_LABEL) =
     Inl AttributeError
   \<and> count_total (fst (target_filter demo_filterer demo_source (py ''die frau geht'' @ [NL]) FEM_LABEL)) = 2
   \<and> out_trg (fst (target_filter demo_filterer demo_source (py ''die frau geht'' @ [NL]) FEM_LABEL)) =
       py ''die frau geht'' @ [NL]"
proof -
  let ?run = "target_filter demo_filterer demo_source (py ''die frau geht'' @ [NL]) FEM_LABEL"
  let ?pairs = "zip (file_lines demo_source) (file_lines (py ''die frau geht'' @ [NL]))"
  from target_filter_unequal_lengths[OF demo_short_lengths, of demo_filterer FEM_LABEL]
    demo_short_no_raise
  have "returned ?run = Inl AttributeError
      \<and> count_total (fst ?run) =
          min (length (file_lines demo_source)) (length (file_lines (py ''die frau geht'' @ [NL]))) + 1
      \<and> out_trg (fst ?run) = concat (map snd (filter (keeps demo_filterer FEM_LABEL) ?pairs))"
    by blast
  then show ?thesis
    by (simp add: demo_source_lines demo_first_line demo_keeps)
qed

text \<open>
  C2 as stated fails: with a three-line source and a one-line target the run raises
  \<open>AttributeError\<close> at the second pair instead of returning the counts (3, 1).
\<close>

theorem target_filter_padding_counterexample:
  "returned (target_filter demo_filterer demo_source (py ''die frau geht'' @ [NL]) FEM_LABEL) =
     Inl AttributeError
   \<and> returned (target_filter demo_filterer demo_source (py ''die frau geht'' @ [NL]) FEM_LABEL) \<noteq>
     Inr (3, 1)"
  using target_filter_unequal(2)[OF demo_short_lengths demo_short_no_raise] by simp

text \<open>
  C7. Whatever the first run did, a second run of \<open>target_filter\<close> with the same filterer and
  gender on the two output files of the first returns the first run's kept count as both
  total and kept count, and writes its inputs again unchanged. In particular, if the first
  run returned \<open>(n_total, n_kept)\<close>, the second returns \<open>(n_kept, n_kept)\<close>.
\<close>

theorem target_filter_idempotent:
  "returned (target_filter F (out_src (fst (target_filter F source_input target_input g)))
               (out_trg (fst (target_filter F source_input target_input g))) g) =
     Inr (count_kept (fst (target_filter F source_input target_input g)),
          count_kept (fst (target_filter F source_input target_input g)))
   \<and> out_src (fst (target_filter F (out_src (fst (target_filter F source_input target_input g)))
               (out_trg (fst (target_filter F source_input target_input g))) g)) =
       out_src (fst (target_filter F source_input target_input g))
   \<and> out_trg (fst (target_filter F (out_src (fst (target_filter F source_input target_input g)))
               (out_trg (fst (target_filter F source_input target_input g))) g)) =
       out_trg (fst (target_filter F source_input target_input g))
   \<and> (returned (target_filter F source_input target_input g) = Inr (n_total, n_kept) \<longrightarrow>
        returned (target_filter F (out_src (fst (target_filter F source_input target_input g)))
               (out_trg (fst (target_filter F source_input target_input g))) g) = Inr (n_kept, n_kept))"
proof -
  have "count_kept (fst (target_filter F source_input target_input g)) = n_kept"
    if "returned (target_filter F source_input target_input g) = Inr (n_total, n_kept)"
    using that by (simp add: returned_def split: option.splits)
  with target_filter_rerun[of F source_input target_input g] show ?thesis by simp
qed

theorem target_filter_idempotent_witness:
  "returned (target_filter demo_filterer demo_source demo_target FEM_LABEL) = Inr (3, 1)
   \<and> returned (target_filter demo_filterer (py ''the woman goes'' @ [NL])
        (py ''die frau geht'' @ [NL]) FEM_LABEL) = Inr (1, 1)
   \<and> out_src (fst (target_filter demo_filterer (py ''the woman goes'' @ [NL])
        (py ''die frau geht'' @ [NL]) FEM_LABEL)) = py ''the woman goes'' @ [NL]
   \<and> out_trg (fst (target_filter demo_filterer (py ''the woman goes'' @ [NL])
        (py ''die frau geht'' @ [NL]) FEM_LABEL)) = py ''die frau geht'' @ [NL]"
  using target_filter_idempotent[of demo_filterer demo_source demo_target FEM_LABEL 3 1]
  by (simp add: demo_run)


section \<open>Verbatim output\<close>

text \<open>
  C10. The two outputs of \<open>target_filter\<close> are the concatenation of the source lines and of
  the target lines of a subsequence of the input line pairs, and the two outputs of the
  source filter are the concatenation of the input lines that are at most 1000 characters
  long and classified Feminine, respectively Masculine: every written line is an input line
  as it was read, and the lines of a file concatenate to the file.
\<close>

theorem lines_written_verbatim:
  "(\<exists>kept. subseq kept (zip (file_lines source_input) (file_lines target_input))
       \<and> out_src (fst (target_filter F source_input target_input g)) = concat (map fst kept)
       \<and> out_trg (fst (target_filter F source_input target_input g)) = concat (map snd kept))
   \<and> fem_out (source_filter lower input) =
       concat (filter (\<lambda>l. length l \<le> 1000 \<and> get_gender lower l = FEM_LABEL) (file_lines input))
   \<and> msc_out (source_filter lower input) =
       concat (filter (\<lambda>l. length l \<le> 1000 \<and> get_gender lower l = MSC_LABEL) (file_lines input))
   \<and> concat (file_lines input) = input"
proof -
  from loop_written[of "zip_longest (file_lines source_input) (file_lines target_input)" F g filter_start]
  have "\<exists>kept. subseq kept (zip (file_lines source_input) (file_lines target_input))
       \<and> out_src (fst (target_filter F source_input target_input g)) = concat (map fst kept)
       \<and> out_trg (fst (target_filter F source_input target_input g)) = concat (map snd kept)"
    by (auto simp add: both_zip_longest target_filter_def filter_start_def)
  moreover from written_foldl[of "get_gender lower" source_start "file_lines input"]
  have "fem_out (source_filter lower input) =
       concat (filter (\<lambda>l. length l \<le> 1000 \<and> get_gender lower l = FEM_LABEL) (file_lines input))
   \<and> msc_out (source_filter lower input) =
       concat (filter (\<lambda>l. length l \<le> 1000 \<and> get_gender lower l = MSC_LABEL) (file_lines input))"
    by (simp add: source_filter_def source_filter_lines_def source_start_def)
  ultimately show ?thesis by (simp add: concat_file_lines)
qed

end
